theory Spec2Isabelle
  imports Main "HOL-Library.Word"
begin

section \<open>Data model of contracts/RockPaperScissorsGame.sol\<close>

text \<open>
  Solidity value types: \<open>uint256\<close> and \<open>bytes32\<close> are 256-bit words, an \<open>address\<close>
  is a 160-bit word. Arithmetic of Solidity 0.8 is checked: an overflow aborts the call
  with a panic, so every \<open>+\<close> and \<open>*\<close> of the source is a \<open>checked_add\<close> or
  \<open>checked_mul\<close> here.
\<close>

type_synonym u256 = "256 word"
type_synonym bytes32 = "256 word"
type_synonym address = "160 word"

datatype Choice = NoneChoice | Rock | Paper | Scissors

datatype GameResult = Pending | Player1Wins | Player2Wins | Draw | Expired

record Game =
  player1 :: address
  player2 :: address
  player1CommitHash :: bytes32
  player2CommitHash :: bytes32
  player1Choice :: Choice
  player2Choice :: Choice
  betAmount :: u256
  commitDeadline :: u256
  revealDeadline :: u256
  result :: GameResult
  player1Revealed :: bool
  player2Revealed :: bool
  isCompleted :: bool
  fundsDistributed :: bool
  randomSeed :: u256

text \<open>
  The storage of the contract. A Solidity mapping is total: a key never written reads
  as the zero value. \<open>entered\<close> is the status word of the inherited ReentrancyGuard.
\<close>

record contract =
  games :: "u256 \<Rightarrow> Game"
  playerGames :: "address \<Rightarrow> u256 list"
  playerBalances :: "address \<Rightarrow> u256"
  nextGameId :: u256
  entered :: bool

record blk =
  block_timestamp :: u256
  block_prevrandao :: u256

record msg =
  msg_sender :: address
  msg_value :: u256

text \<open>
  A failed call: a \<open>require\<close>/\<open>revert\<close> with its message, an arithmetic panic, the
  custom error of the reentrancy guard, or value sent to a function that is not payable.
  A failed call leaves no write behind, so a result \<open>Inl e\<close> carries no storage.
\<close>

datatype error = Revert string | Panic | ReentrancyGuardReentrantCall | NotPayable

text \<open>
  \<open>keccak256(abi.encodePacked(...))\<close> is a primitive of the platform. The two uses of
  the source are parameters of the model: the commitment hash over
  \<open>(choice, nonce, player)\<close> and the seed hash of \<open>_generateRandomSeed\<close>.
\<close>

record keccak =
  commitHashOf :: "Choice \<Rightarrow> u256 \<Rightarrow> address \<Rightarrow> bytes32"
  seedHashOf :: "u256 \<Rightarrow> u256 \<Rightarrow> address \<Rightarrow> address \<Rightarrow> bytes32 \<Rightarrow> bytes32 \<Rightarrow> u256 \<Rightarrow> u256"

definition COMMIT_DURATION :: u256 where
  "COMMIT_DURATION = 300"

definition REVEAL_DURATION :: u256 where
  "REVEAL_DURATION = 300"

definition MIN_BET_AMOUNT :: u256 where
  "MIN_BET_AMOUNT = 1000000000000000"

definition MAX_BET_AMOUNT :: u256 where
  "MAX_BET_AMOUNT = 10000000000000000000"

definition ONE_HOUR :: u256 where
  "ONE_HOUR = 3600"

definition checked_add :: "u256 \<Rightarrow> u256 \<Rightarrow> error + u256" where
  "checked_add a b = (if unat a + unat b < 2 ^ 256 then Inr (a + b) else Inl Panic)"

definition checked_mul :: "u256 \<Rightarrow> u256 \<Rightarrow> error + u256" where
  "checked_mul a b = (if unat a * unat b < 2 ^ 256 then Inr (a * b) else Inl Panic)"

definition zero_game :: Game where
  "zero_game = \<lparr> player1 = 0, player2 = 0, player1CommitHash = 0, player2CommitHash = 0,
     player1Choice = NoneChoice, player2Choice = NoneChoice, betAmount = 0,
     commitDeadline = 0, revealDeadline = 0, result = Pending,
     player1Revealed = False, player2Revealed = False, isCompleted = False,
     fundsDistributed = False, randomSeed = 0 \<rparr>"

text \<open>The storage right after deployment: \<open>nextGameId = 1\<close>, everything else zero.\<close>

definition init_contract :: contract where
  "init_contract = \<lparr> games = (\<lambda>_. zero_game), playerGames = (\<lambda>_. []),
     playerBalances = (\<lambda>_. 0), nextGameId = 1, entered = False \<rparr>"

definition set_game :: "u256 \<Rightarrow> Game \<Rightarrow> contract \<Rightarrow> contract" where
  "set_game gameId g s = s\<lparr> games := (games s)(gameId := g) \<rparr>"

text \<open>\<open>playerBalances[a] += v\<close>, checked.\<close>

definition credit :: "address \<Rightarrow> u256 \<Rightarrow> contract \<Rightarrow> error + contract" where
  "credit a v s =
     (case checked_add (playerBalances s a) v of
        Inl e \<Rightarrow> Inl e
      | Inr b \<Rightarrow> Inr (s\<lparr> playerBalances := (playerBalances s)(a := b) \<rparr>))"

text \<open>
  The modifier \<open>nonReentrant\<close> of OpenZeppelin's ReentrancyGuard: revert when the guard is
  already entered, otherwise enter, run the body, and leave.
\<close>

definition nonReentrant :: "(contract \<Rightarrow> error + contract) \<Rightarrow> contract \<Rightarrow> error + contract" where
  "nonReentrant body s =
     (if entered s then Inl ReentrancyGuardReentrantCall
      else case body (s\<lparr> entered := True \<rparr>) of
             Inl e \<Rightarrow> Inl e
           | Inr s' \<Rightarrow> Inr (s'\<lparr> entered := False \<rparr>))"

section \<open>The functions of the contract\<close>

definition createGame :: "msg \<Rightarrow> contract \<Rightarrow> error + contract" where
  "createGame m = nonReentrant (\<lambda>s.
     if \<not> (MIN_BET_AMOUNT \<le> msg_value m) then Inl (Revert ''Bet amount too low'')
     else if \<not> (msg_value m \<le> MAX_BET_AMOUNT) then Inl (Revert ''Bet amount too high'')
     else case checked_add (nextGameId s) 1 of
       Inl e \<Rightarrow> Inl e
     | Inr next \<Rightarrow>
         let gameId = nextGameId s;
             s1 = s\<lparr> nextGameId := next \<rparr>;
             s2 = set_game gameId
                    (zero_game\<lparr> player1 := msg_sender m, betAmount := msg_value m \<rparr>) s1
         in Inr (s2\<lparr> playerGames :=
                   (playerGames s2)(msg_sender m := playerGames s2 (msg_sender m) @ [gameId]) \<rparr>))"

definition joinGame :: "blk \<Rightarrow> msg \<Rightarrow> u256 \<Rightarrow> contract \<Rightarrow> error + contract" where
  "joinGame b m gameId = nonReentrant (\<lambda>s.
     let game = games s gameId in
     if \<not> (player1 game \<noteq> 0) then Inl (Revert ''Game does not exist'')
     else if \<not> (player2 game = 0) then Inl (Revert ''Game already has two players'')
     else if \<not> (msg_sender m \<noteq> player1 game) then Inl (Revert ''Cannot play against yourself'')
     else if \<not> (msg_value m = betAmount game) then Inl (Revert ''Must match the bet amount'')
     else case checked_add (block_timestamp b) COMMIT_DURATION of
       Inl e \<Rightarrow> Inl e
     | Inr deadline \<Rightarrow>
         let s1 = set_game gameId (game\<lparr> player2 := msg_sender m, commitDeadline := deadline \<rparr>) s
         in Inr (s1\<lparr> playerGames :=
                   (playerGames s1)(msg_sender m := playerGames s1 (msg_sender m) @ [gameId]) \<rparr>))"

definition generateRandomSeed :: "keccak \<Rightarrow> blk \<Rightarrow> u256 \<Rightarrow> contract \<Rightarrow> contract" where
  "generateRandomSeed K b gameId s =
     (let game = games s gameId;
          seed = seedHashOf K (block_timestamp b) (block_prevrandao b) (player1 game)
                   (player2 game) (player1CommitHash game) (player2CommitHash game) gameId
      in set_game gameId (game\<lparr> randomSeed := seed \<rparr>) s)"

definition commitChoice ::
  "keccak \<Rightarrow> blk \<Rightarrow> msg \<Rightarrow> u256 \<Rightarrow> bytes32 \<Rightarrow> contract \<Rightarrow> error + contract" where
  "commitChoice K b m gameId commitHash s =
     (let game = games s gameId in
      if \<not> (player1 game \<noteq> 0 \<and> player2 game \<noteq> 0) then Inl (Revert ''Game not ready'')
      else if \<not> (block_timestamp b \<le> commitDeadline game)
        then Inl (Revert ''Commit phase expired'')
      else if \<not> (commitHash \<noteq> 0) then Inl (Revert ''Invalid commit hash'')
      else case (if msg_sender m = player1 game then
                   (if \<not> (player1CommitHash game = 0) then Inl (Revert ''Already committed'')
                    else Inr (game\<lparr> player1CommitHash := commitHash \<rparr>))
                 else if msg_sender m = player2 game then
                   (if \<not> (player2CommitHash game = 0) then Inl (Revert ''Already committed'')
                    else Inr (game\<lparr> player2CommitHash := commitHash \<rparr>))
                 else Inl (Revert ''Not a player in this game'')) of
        Inl e \<Rightarrow> Inl e
      | Inr game1 \<Rightarrow>
          if player1CommitHash game1 \<noteq> 0 \<and> player2CommitHash game1 \<noteq> 0 then
            (case checked_add (block_timestamp b) REVEAL_DURATION of
               Inl e \<Rightarrow> Inl e
             | Inr deadline \<Rightarrow>
                 Inr (generateRandomSeed K b gameId
                        (set_game gameId (game1\<lparr> revealDeadline := deadline \<rparr>) s)))
          else Inr (set_game gameId game1 s))"

definition distributeFunds :: "u256 \<Rightarrow> contract \<Rightarrow> error + contract" where
  "distributeFunds gameId s =
     (let game = games s gameId in
      if \<not> (\<not> fundsDistributed game) then Inl (Revert ''Funds already distributed'')
      else case checked_mul (betAmount game) 2 of
        Inl e \<Rightarrow> Inl e
      | Inr totalPot \<Rightarrow>
          (case (if result game = Draw then
                   (case credit (player1 game) (betAmount game) s of
                      Inl e \<Rightarrow> Inl e
                    | Inr s1 \<Rightarrow> credit (player2 game) (betAmount game) s1)
                 else if result game = Player1Wins then credit (player1 game) totalPot s
                 else if result game = Player2Wins then credit (player2 game) totalPot s
                 else Inr s) of
             Inl e \<Rightarrow> Inl e
           | Inr s2 \<Rightarrow> Inr (set_game gameId ((games s2 gameId)\<lparr> fundsDistributed := True \<rparr>) s2)))"

definition determineWinner :: "u256 \<Rightarrow> contract \<Rightarrow> error + contract" where
  "determineWinner gameId s =
     (let game = games s gameId;
          choice1 = player1Choice game;
          choice2 = player2Choice game;
          res = (if choice1 = choice2 then Draw
                 else if (choice1 = Rock \<and> choice2 = Scissors) \<or>
                         (choice1 = Paper \<and> choice2 = Rock) \<or>
                         (choice1 = Scissors \<and> choice2 = Paper) then Player1Wins
                 else Player2Wins)
      in distributeFunds gameId
           (set_game gameId (game\<lparr> result := res, isCompleted := True \<rparr>) s))"

definition revealChoice ::
  "keccak \<Rightarrow> blk \<Rightarrow> msg \<Rightarrow> u256 \<Rightarrow> Choice \<Rightarrow> u256 \<Rightarrow> contract \<Rightarrow> error + contract" where
  "revealChoice K b m gameId choice nonce s =
     (let game = games s gameId in
      if \<not> (revealDeadline game > 0) then Inl (Revert ''Reveal phase not started'')
      else if \<not> (block_timestamp b \<le> revealDeadline game)
        then Inl (Revert ''Reveal phase expired'')
      else if \<not> (choice \<noteq> NoneChoice) then Inl (Revert ''Invalid choice'')
      else let expectedHash = commitHashOf K choice nonce (msg_sender m) in
        case (if msg_sender m = player1 game then
                (if \<not> (player1CommitHash game = expectedHash) then Inl (Revert ''Invalid reveal'')
                 else if \<not> (\<not> player1Revealed game) then Inl (Revert ''Already revealed'')
                 else Inr (game\<lparr> player1Choice := choice, player1Revealed := True \<rparr>))
              else if msg_sender m = player2 game then
                (if \<not> (player2CommitHash game = expectedHash) then Inl (Revert ''Invalid reveal'')
                 else if \<not> (\<not> player2Revealed game) then Inl (Revert ''Already revealed'')
                 else Inr (game\<lparr> player2Choice := choice, player2Revealed := True \<rparr>))
              else Inl (Revert ''Not a player in this game'')) of
          Inl e \<Rightarrow> Inl e
        | Inr game1 \<Rightarrow>
            if player1Revealed game1 \<and> player2Revealed game1
            then determineWinner gameId (set_game gameId game1 s)
            else Inr (set_game gameId game1 s))"

definition handleExpiredGame :: "blk \<Rightarrow> u256 \<Rightarrow> contract \<Rightarrow> error + contract" where
  "handleExpiredGame b gameId s =
     (let game = games s gameId in
      if \<not> (revealDeadline game > 0 \<and> block_timestamp b > revealDeadline game)
        then Inl (Revert ''Game not expired'')
      else if \<not> (\<not> isCompleted game) then Inl (Revert ''Game already completed'')
      else case (if player1Revealed game \<and> \<not> player2Revealed game then
                   (let s1 = set_game gameId (game\<lparr> result := Player1Wins \<rparr>) s in
                    case checked_mul (betAmount game) 2 of
                      Inl e \<Rightarrow> Inl e
                    | Inr pot \<Rightarrow> credit (player1 game) pot s1)
                 else if \<not> player1Revealed game \<and> player2Revealed game then
                   (let s1 = set_game gameId (game\<lparr> result := Player2Wins \<rparr>) s in
                    case checked_mul (betAmount game) 2 of
                      Inl e \<Rightarrow> Inl e
                    | Inr pot \<Rightarrow> credit (player2 game) pot s1)
                 else
                   (let s1 = set_game gameId (game\<lparr> result := Expired \<rparr>) s in
                    case credit (player1 game) (betAmount game) s1 of
                      Inl e \<Rightarrow> Inl e
                    | Inr s2 \<Rightarrow> credit (player2 game) (betAmount game) s2)) of
        Inl e \<Rightarrow> Inl e
      | Inr s3 \<Rightarrow>
          Inr (set_game gameId
                 ((games s3 gameId)\<lparr> isCompleted := True, fundsDistributed := True \<rparr>) s3))"

text \<open>
  \<open>withdrawBalance\<close> hands control to the caller's address with
  \<open>payable(msg.sender).call{value: balance}("")\<close>. What that address does is outside the
  contract: \<open>callee recipient amount s\<close> is given the storage at the moment of the call
  and answers with the success flag of the call and the storage it leaves (it may have
  called back into the contract).
\<close>

type_synonym callee = "address \<Rightarrow> u256 \<Rightarrow> contract \<Rightarrow> bool \<times> contract"

definition withdrawBalance :: "callee \<Rightarrow> msg \<Rightarrow> contract \<Rightarrow> error + contract" where
  "withdrawBalance ext m = nonReentrant (\<lambda>s.
     let balance = playerBalances s (msg_sender m) in
     if \<not> (balance > 0) then Inl (Revert ''No balance to withdraw'')
     else let s1 = s\<lparr> playerBalances := (playerBalances s)(msg_sender m := 0) \<rparr>;
              (success, s2) = ext (msg_sender m) balance s1
          in if \<not> success then Inl (Revert ''Withdrawal failed'') else Inr s2)"

definition cancelGame :: "blk \<Rightarrow> msg \<Rightarrow> u256 \<Rightarrow> contract \<Rightarrow> error + contract" where
  "cancelGame b m gameId s =
     (let game = games s gameId in
      if \<not> (player1 game = msg_sender m) then Inl (Revert ''Only game creator can cancel'')
      else if \<not> (player2 game = 0) then Inl (Revert ''Cannot cancel game with two players'')
      else case checked_add (commitDeadline game) ONE_HOUR of
        Inl e \<Rightarrow> Inl e
      | Inr limit \<Rightarrow>
          if \<not> (block_timestamp b > limit) then Inl (Revert ''Must wait before canceling'')
          else (case credit (player1 game) (betAmount game) s of
                  Inl e \<Rightarrow> Inl e
                | Inr s1 \<Rightarrow>
                    Inr (set_game gameId
                           ((games s1 gameId)\<lparr> isCompleted := True, result := Expired \<rparr>) s1)))"

definition generateCommitHash :: "keccak \<Rightarrow> Choice \<Rightarrow> u256 \<Rightarrow> address \<Rightarrow> bytes32" where
  "generateCommitHash K choice nonce player = commitHashOf K choice nonce player"

section \<open>Transactions and reachable storage\<close>

text \<open>
  The external functions that write storage, as one datatype of calls. The functions
  \<open>createGame\<close> and \<open>joinGame\<close> are payable; a call of any other function that carries
  value is rejected before its body runs. The events of the source are not modelled:
  they write no storage. The owner's \<open>emergencyWithdraw\<close> and \<open>updatePythContract\<close> and
  the \<open>receive\<close> function touch none of the storage modelled here.
\<close>

datatype call =
    CreateGame
  | JoinGame u256
  | CommitChoice u256 bytes32
  | RevealChoice u256 Choice u256
  | HandleExpiredGame u256
  | WithdrawBalance
  | CancelGame u256

definition dispatch ::
  "keccak \<Rightarrow> callee \<Rightarrow> blk \<Rightarrow> msg \<Rightarrow> call \<Rightarrow> contract \<Rightarrow> error + contract" where
  "dispatch K ext b m c s =
     (case c of
        CreateGame \<Rightarrow> createGame m s
      | JoinGame gameId \<Rightarrow> joinGame b m gameId s
      | CommitChoice gameId commitHash \<Rightarrow>
          if msg_value m \<noteq> 0 then Inl NotPayable else commitChoice K b m gameId commitHash s
      | RevealChoice gameId choice nonce \<Rightarrow>
          if msg_value m \<noteq> 0 then Inl NotPayable else revealChoice K b m gameId choice nonce s
      | HandleExpiredGame gameId \<Rightarrow>
          if msg_value m \<noteq> 0 then Inl NotPayable else handleExpiredGame b gameId s
      | WithdrawBalance \<Rightarrow>
          if msg_value m \<noteq> 0 then Inl NotPayable else withdrawBalance ext m s
      | CancelGame gameId \<Rightarrow>
          if msg_value m \<noteq> 0 then Inl NotPayable else cancelGame b m gameId s)"

text \<open>
  What a called address can do to the contract while \<open>withdrawBalance\<close> waits for it:
  a list of calls back into the contract, each kept when it succeeds and dropped when it
  reverts, and the success flag it finally returns. The guard is entered during all of
  it, so a nested \<open>withdrawBalance\<close> never reaches its own external call; \<open>no_callee\<close>
  stands for that call.
\<close>

definition no_callee :: callee where
  "no_callee recipient amount s = (False, s)"

fun reenter :: "keccak \<Rightarrow> blk \<Rightarrow> (msg \<times> call) list \<Rightarrow> contract \<Rightarrow> contract" where
  "reenter K b [] s = s"
| "reenter K b ((m, c) # rest) s =
     reenter K b rest (case dispatch K no_callee b m c s of Inl e \<Rightarrow> s | Inr s' \<Rightarrow> s')"

type_synonym script = "(msg \<times> call) list \<times> bool"

definition scripted :: "keccak \<Rightarrow> blk \<Rightarrow> script \<Rightarrow> callee" where
  "scripted K b sc recipient amount s = (snd sc, reenter K b (fst sc) s)"

text \<open>
  One transaction: block, message, call, and the script of the called address. No
  account sends from the zero address.
\<close>

type_synonym tx = "blk \<times> msg \<times> call \<times> script"

fun tx_ok :: "tx \<Rightarrow> bool" where
  "tx_ok (b, m, c, sc) = (msg_sender m \<noteq> 0 \<and> list_all (\<lambda>(m', c'). msg_sender m' \<noteq> 0) (fst sc))"

fun transact :: "keccak \<Rightarrow> tx \<Rightarrow> contract \<Rightarrow> error + contract" where
  "transact K (b, m, c, sc) s = dispatch K (scripted K b sc) b m c s"

fun run :: "keccak \<Rightarrow> tx list \<Rightarrow> contract \<Rightarrow> error + contract" where
  "run K [] s = Inr s"
| "run K (t # ts) s = (case transact K t s of Inl e \<Rightarrow> Inl e | Inr s' \<Rightarrow> run K ts s')"

inductive reachable :: "keccak \<Rightarrow> contract \<Rightarrow> bool" for K :: keccak where
  deployed: "reachable K init_contract"
| transaction: "reachable K s \<Longrightarrow> tx_ok t \<Longrightarrow> transact K t s = Inr s' \<Longrightarrow> reachable K s'"

text \<open>The storage after a call: a call that fails leaves the storage as it was.\<close>

definition storage_after :: "error + contract \<Rightarrow> contract \<Rightarrow> contract" where
  "storage_after r s = (case r of Inl e \<Rightarrow> s | Inr s' \<Rightarrow> s')"

section \<open>Invariants of reachable storage\<close>

definition game_ok :: "Game \<Rightarrow> bool" where
  "game_ok g \<longleftrightarrow>
     (player2 g \<noteq> 0 \<longrightarrow> player1 g \<noteq> 0 \<and> player1 g \<noteq> player2 g) \<and>
     (player2 g = 0 \<longrightarrow> commitDeadline g = 0 \<and> player1CommitHash g = 0 \<and> player2CommitHash g = 0) \<and>
     ((player1CommitHash g \<noteq> 0 \<and> player2CommitHash g \<noteq> 0) = (revealDeadline g \<noteq> 0)) \<and>
     (player1Revealed g \<longrightarrow> revealDeadline g \<noteq> 0 \<and> player1Choice g \<noteq> NoneChoice) \<and>
     (player2Revealed g \<longrightarrow> revealDeadline g \<noteq> 0 \<and> player2Choice g \<noteq> NoneChoice) \<and>
     (player1Revealed g \<and> player2Revealed g \<longrightarrow> isCompleted g \<and> fundsDistributed g) \<and>
     (fundsDistributed g \<longrightarrow> isCompleted g) \<and>
     betAmount g \<le> MAX_BET_AMOUNT"

definition contract_ok :: "contract \<Rightarrow> bool" where
  "contract_ok s \<longleftrightarrow> (\<forall>gameId. game_ok (games s gameId))"

text \<open>Game ids not yet handed out hold no game.\<close>

definition ids_fresh :: "contract \<Rightarrow> bool" where
  "ids_fresh s \<longleftrightarrow> (\<forall>gameId. nextGameId s \<le> gameId \<longrightarrow> games s gameId = zero_game)"

text \<open>
  What every call but \<open>createGame\<close> does to the table of games: no id is handed out, an
  empty slot stays empty, and a completed or paid game stays so.
\<close>

definition grows :: "contract \<Rightarrow> contract \<Rightarrow> bool" where
  "grows s s' \<longleftrightarrow>
     nextGameId s' = nextGameId s \<and>
     (\<forall>gameId.
        (games s gameId = zero_game \<longrightarrow> games s' gameId = zero_game) \<and>
        (isCompleted (games s gameId) \<longrightarrow> isCompleted (games s' gameId)) \<and>
        (fundsDistributed (games s gameId) \<longrightarrow> fundsDistributed (games s' gameId)))"

text \<open>The if-chain of \<open>_determineWinner\<close> on its own.\<close>

definition winner_of :: "Choice \<Rightarrow> Choice \<Rightarrow> GameResult" where
  "winner_of choice1 choice2 =
     (if choice1 = choice2 then Draw
      else if (choice1 = Rock \<and> choice2 = Scissors) \<or>
              (choice1 = Paper \<and> choice2 = Rock) \<or>
              (choice1 = Scissors \<and> choice2 = Paper) then Player1Wins
      else Player2Wins)"

section \<open>Vocabulary of the specification\<close>

text \<open>
  The outcome rule as the specification words it: Rock beats Scissors, Paper beats
  Rock, Scissors beats Paper, identical choices are a draw. Where neither choice beats
  the other and they differ (one of them is no choice at all) the rule names no result;
  \<open>spec_outcome\<close> leaves such a game \<open>Pending\<close>.
\<close>

fun beats :: "Choice \<Rightarrow> Choice \<Rightarrow> bool" where
  "beats Rock Scissors = True"
| "beats Paper Rock = True"
| "beats Scissors Paper = True"
| "beats _ _ = False"

definition spec_outcome :: "Choice \<Rightarrow> Choice \<Rightarrow> GameResult" where
  "spec_outcome c1 c2 =
     (if c1 = c2 then Draw
      else if beats c1 c2 then Player1Wins
      else if beats c2 c1 then Player2Wins
      else Pending)"

text \<open>What a call credited to an account: the growth of its withdrawable balance.\<close>

definition credited :: "contract \<Rightarrow> contract \<Rightarrow> address \<Rightarrow> int" where
  "credited s s' a = int (unat (playerBalances s' a)) - int (unat (playerBalances s a))"

definition stake :: "Game \<Rightarrow> int" where
  "stake g = int (unat (betAmount g))"

text \<open>The commitment stored for a participant, and whether the participant has revealed.\<close>

definition stored_commitment :: "Game \<Rightarrow> address \<Rightarrow> bytes32" where
  "stored_commitment g a = (if a = player1 g then player1CommitHash g else player2CommitHash g)"

definition has_revealed :: "Game \<Rightarrow> address \<Rightarrow> bool" where
  "has_revealed g a = (if a = player1 g then player1Revealed g else player2Revealed g)"

definition other_revealed :: "Game \<Rightarrow> address \<Rightarrow> bool" where
  "other_revealed g a = (if a = player1 g then player2Revealed g else player1Revealed g)"

definition revealed_choice :: "Game \<Rightarrow> address \<Rightarrow> Choice" where
  "revealed_choice g a = (if a = player1 g then player1Choice g else player2Choice g)"

text \<open>The game record as \<open>revealChoice\<close> has written it when it looks for the second reveal.\<close>

definition reveal_written :: "Game \<Rightarrow> address \<Rightarrow> Choice \<Rightarrow> Game" where
  "reveal_written g a choice =
     (if a = player1 g then g\<lparr> player1Choice := choice, player1Revealed := True \<rparr>
      else g\<lparr> player2Choice := choice, player2Revealed := True \<rparr>)"

text \<open>Neither player's balance overflows when the whole pot is added to it.\<close>

definition pot_fits :: "contract \<Rightarrow> Game \<Rightarrow> bool" where
  "pot_fits s g \<longleftrightarrow>
     unat (playerBalances s (player1 g)) + 2 * unat (betAmount g) < 2 ^ 256 \<and>
     unat (playerBalances s (player2 g)) + 2 * unat (betAmount g) < 2 ^ 256"

text \<open>The storage \<open>withdrawBalance\<close> has written when it makes its external call.\<close>

definition at_external_call :: "msg \<Rightarrow> contract \<Rightarrow> contract" where
  "at_external_call m s =
     s\<lparr> entered := True, playerBalances := (playerBalances s)(msg_sender m := 0) \<rparr>"

section \<open>A concrete game\<close>

text \<open>
  A stand-in for the hash, two accounts and the transactions of one game, used where a
  property is evaluated on explicit storage. The stand-in is injective on the values
  used below; nothing else is asked of it.
\<close>

fun choice_code :: "Choice \<Rightarrow> nat" where
  "choice_code NoneChoice = 0"
| "choice_code Rock = 1"
| "choice_code Paper = 2"
| "choice_code Scissors = 3"

definition toy_keccak :: keccak where
  "toy_keccak =
     \<lparr> commitHashOf = (\<lambda>c n a. 1 + of_nat (choice_code c) + 4 * n + 1048576 * ucast a),
       seedHashOf = (\<lambda>t r p1 p2 h1 h2 g. t + r + h1 + h2 + g) \<rparr>"

definition alice :: address where
  "alice = 10"

definition bob :: address where
  "bob = 11"

definition carol :: address where
  "carol = 12"

definition bet :: u256 where
  "bet = 100000000000000000"

definition at_time :: "u256 \<Rightarrow> blk" where
  "at_time t = \<lparr> block_timestamp = t, block_prevrandao = 0 \<rparr>"

definition from_account :: "address \<Rightarrow> u256 \<Rightarrow> msg" where
  "from_account a v = \<lparr> msg_sender = a, msg_value = v \<rparr>"

definition plain_tx :: "u256 \<Rightarrow> address \<Rightarrow> u256 \<Rightarrow> call \<Rightarrow> tx" where
  "plain_tx t a v c = (at_time t, from_account a v, c, ([], True))"

definition after_txs :: "tx list \<Rightarrow> contract" where
  "after_txs ts = storage_after (run toy_keccak ts init_contract) init_contract"

definition txs_created :: "tx list" where
  "txs_created = [plain_tx 1700000000 alice bet CreateGame]"

definition txs_joined :: "tx list" where
  "txs_joined = txs_created @ [plain_tx 1700000010 bob bet (JoinGame 1)]"

definition txs_committed1 :: "tx list" where
  "txs_committed1 = txs_joined @
     [plain_tx 1700000020 alice 0 (CommitChoice 1 (commitHashOf toy_keccak Rock 7 alice))]"

definition txs_committed :: "tx list" where
  "txs_committed = txs_committed1 @
     [plain_tx 1700000030 bob 0 (CommitChoice 1 (commitHashOf toy_keccak Scissors 9 bob))]"

definition txs_revealed1 :: "tx list" where
  "txs_revealed1 = txs_committed @ [plain_tx 1700000040 alice 0 (RevealChoice 1 Rock 7)]"

definition txs_resolved :: "tx list" where
  "txs_resolved = txs_revealed1 @ [plain_tx 1700000050 bob 0 (RevealChoice 1 Scissors 9)]"

definition txs_cancelled :: "tx list" where
  "txs_cancelled = txs_created @ [plain_tx 1700000000 alice 0 (CancelGame 1)]"

definition txs_cancelled_late :: "tx list" where
  "txs_cancelled_late = txs_created @ [plain_tx 1700007200 alice 0 (CancelGame 1)]"

definition st_created :: contract where
  "st_created = after_txs txs_created"

definition st_joined :: contract where
  "st_joined = after_txs txs_joined"

definition st_committed1 :: contract where
  "st_committed1 = after_txs txs_committed1"

definition st_committed :: contract where
  "st_committed = after_txs txs_committed"

definition st_revealed1 :: contract where
  "st_revealed1 = after_txs txs_revealed1"

definition st_resolved :: contract where
  "st_resolved = after_txs txs_resolved"

definition st_cancelled :: contract where
  "st_cancelled = after_txs txs_cancelled"

definition st_cancelled_late :: contract where
  "st_cancelled_late = after_txs txs_cancelled_late"

section \<open>Basic facts\<close>

lemmas eval_defs =
  after_txs_def storage_after_def plain_tx_def at_time_def from_account_def
  txs_created_def txs_joined_def txs_committed1_def txs_committed_def txs_revealed1_def
  txs_resolved_def txs_cancelled_def txs_cancelled_late_def
  dispatch_def scripted_def createGame_def joinGame_def commitChoice_def revealChoice_def
  determineWinner_def distributeFunds_def handleExpiredGame_def cancelGame_def
  withdrawBalance_def generateRandomSeed_def nonReentrant_def credit_def
  checked_add_def checked_mul_def set_game_def init_contract_def zero_game_def
  MIN_BET_AMOUNT_def MAX_BET_AMOUNT_def COMMIT_DURATION_def REVEAL_DURATION_def ONE_HOUR_def
  toy_keccak_def alice_def bob_def carol_def bet_def Let_def

lemma contract_ok_set_game:
  "contract_ok s \<Longrightarrow> game_ok g \<Longrightarrow> contract_ok (set_game gameId g s)"
  by (simp add: contract_ok_def set_game_def)

lemma contract_ok_game: "contract_ok s \<Longrightarrow> game_ok (games s gameId)"
  by (simp add: contract_ok_def)

lemma games_set_game [simp]: "games (set_game gameId g s) = (games s)(gameId := g)"
  by (simp add: set_game_def)

lemma playerBalances_set_game [simp]: "playerBalances (set_game gameId g s) = playerBalances s"
  by (simp add: set_game_def)

lemma entered_set_game [simp]: "entered (set_game gameId g s) = entered s"
  by (simp add: set_game_def)

lemma set_game_twice [simp]: "set_game gameId g (set_game gameId g' s) = set_game gameId g s"
  by (simp add: set_game_def)

lemma credit_games: "credit a v s = Inr s' \<Longrightarrow> games s' = games s"
  by (auto simp: credit_def split: sum.splits)

lemma credit_entered: "credit a v s = Inr s' \<Longrightarrow> entered s' = entered s"
  by (auto simp: credit_def split: sum.splits)

lemma credit_ok: "credit a v s = Inr s' \<Longrightarrow> contract_ok s' = contract_ok s"
  by (simp add: contract_ok_def credit_games)

lemma checked_add_unat:
  "checked_add a b = Inr c \<Longrightarrow> unat c = unat a + unat b"
  by (auto simp: checked_add_def unat_word_ariths split: if_splits)

lemma checked_mul_unat:
  "checked_mul a b = Inr c \<Longrightarrow> unat c = unat a * unat b"
  by (auto simp: checked_mul_def unat_word_ariths split: if_splits)

lemma checked_add_pos:
  "checked_add a b = Inr c \<Longrightarrow> b \<noteq> 0 \<Longrightarrow> c \<noteq> 0"
proof -
  assume h: "checked_add a b = Inr c" and nz: "b \<noteq> 0"
  have "unat c = unat a + unat b" using h by (rule checked_add_unat)
  moreover have "unat b \<noteq> 0" using nz by (simp add: unat_eq_zero)
  ultimately have "unat c \<noteq> 0" by simp
  then show ?thesis by auto
qed

lemma game_ok_commit1:
  "game_ok g \<Longrightarrow> player2 g \<noteq> 0 \<Longrightarrow> player1CommitHash g = 0 \<Longrightarrow> h \<noteq> 0 \<Longrightarrow>
   player2CommitHash g = 0 \<Longrightarrow> game_ok (g\<lparr> player1CommitHash := h \<rparr>)"
  by (clarsimp simp: game_ok_def) blast?

lemma game_ok_commit1_last:
  "game_ok g \<Longrightarrow> player2 g \<noteq> 0 \<Longrightarrow> player1CommitHash g = 0 \<Longrightarrow> h \<noteq> 0 \<Longrightarrow>
   player2CommitHash g \<noteq> 0 \<Longrightarrow> d \<noteq> 0 \<Longrightarrow>
   game_ok (g\<lparr> player1CommitHash := h, revealDeadline := d, randomSeed := seed \<rparr>)"
  by (clarsimp simp: game_ok_def) blast?

lemma game_ok_commit2:
  "game_ok g \<Longrightarrow> player2 g \<noteq> 0 \<Longrightarrow> player2CommitHash g = 0 \<Longrightarrow> h \<noteq> 0 \<Longrightarrow>
   player1CommitHash g = 0 \<Longrightarrow> game_ok (g\<lparr> player2CommitHash := h \<rparr>)"
  by (clarsimp simp: game_ok_def) blast?

lemma game_ok_commit2_last:
  "game_ok g \<Longrightarrow> player2 g \<noteq> 0 \<Longrightarrow> player2CommitHash g = 0 \<Longrightarrow> h \<noteq> 0 \<Longrightarrow>
   player1CommitHash g \<noteq> 0 \<Longrightarrow> d \<noteq> 0 \<Longrightarrow>
   game_ok (g\<lparr> player2CommitHash := h, revealDeadline := d, randomSeed := seed \<rparr>)"
  by (clarsimp simp: game_ok_def) blast?

lemma commitChoice_ok:
  assumes ok: "contract_ok s" and c: "commitChoice K b m gameId h s = Inr s'"
  shows "contract_ok s'"
proof -
  have g: "game_ok (games s gameId)" using ok by (rule contract_ok_game)
  have nz: "\<And>d. checked_add (block_timestamp b) REVEAL_DURATION = Inr d \<Longrightarrow> d \<noteq> 0"
    by (erule checked_add_pos) (simp add: REVEAL_DURATION_def)
  show ?thesis
    using c
    apply (simp add: commitChoice_def Let_def generateRandomSeed_def split: if_splits sum.splits)
       apply (auto intro!: contract_ok_set_game[OF ok] game_ok_commit1[OF g]
        game_ok_commit1_last[OF g] game_ok_commit2[OF g] game_ok_commit2_last[OF g] dest: nz)
    done
qed


lemma contract_ok_upd:
  "contract_ok s \<Longrightarrow> games s' = (games s)(gameId := g) \<Longrightarrow> game_ok g \<Longrightarrow> contract_ok s'"
  by (simp add: contract_ok_def)

lemma createGame_ok:
  "contract_ok s \<Longrightarrow> createGame m s = Inr s' \<Longrightarrow> contract_ok s'"
  by (auto simp: createGame_def nonReentrant_def Let_def contract_ok_def set_game_def
        game_ok_def zero_game_def split: if_splits sum.splits)

lemma joinGame_ok:
  "contract_ok s \<Longrightarrow> msg_sender m \<noteq> 0 \<Longrightarrow> joinGame b m gameId s = Inr s' \<Longrightarrow> contract_ok s'"
  by (auto simp: joinGame_def nonReentrant_def Let_def contract_ok_def set_game_def
        game_ok_def split: if_splits sum.splits)

lemma distributeFunds_games:
  "distributeFunds gameId s = Inr s' \<Longrightarrow>
     \<not> fundsDistributed (games s gameId) \<and>
     games s' = (games s)(gameId := (games s gameId)\<lparr> fundsDistributed := True \<rparr>)"
  by (auto simp: distributeFunds_def Let_def dest!: credit_games split: if_splits sum.splits)

lemma determineWinner_games:
  "determineWinner gameId s = Inr s' \<Longrightarrow>
     \<not> fundsDistributed (games s gameId) \<and>
     games s' = (games s)(gameId := (games s gameId)
        \<lparr> result := winner_of (player1Choice (games s gameId)) (player2Choice (games s gameId)),
          isCompleted := True, fundsDistributed := True \<rparr>)"
  by (auto simp: determineWinner_def Let_def winner_of_def dest!: distributeFunds_games)

lemma game_ok_reveal1:
  "game_ok g \<Longrightarrow> revealDeadline g \<noteq> 0 \<Longrightarrow> c \<noteq> NoneChoice \<Longrightarrow> \<not> player2Revealed g \<Longrightarrow>
   game_ok (g\<lparr> player1Choice := c, player1Revealed := True \<rparr>)"
  by (clarsimp simp: game_ok_def) blast?

lemma game_ok_reveal2:
  "game_ok g \<Longrightarrow> revealDeadline g \<noteq> 0 \<Longrightarrow> c \<noteq> NoneChoice \<Longrightarrow> \<not> player1Revealed g \<Longrightarrow>
   game_ok (g\<lparr> player2Choice := c, player2Revealed := True \<rparr>)"
  by (clarsimp simp: game_ok_def) blast?

lemma game_ok_reveal1_last:
  "game_ok g \<Longrightarrow> revealDeadline g \<noteq> 0 \<Longrightarrow> c \<noteq> NoneChoice \<Longrightarrow>
   game_ok (g\<lparr> player1Choice := c, player1Revealed := True, result := r,
               isCompleted := True, fundsDistributed := True \<rparr>)"
  by (clarsimp simp: game_ok_def) blast?

lemma game_ok_reveal2_last:
  "game_ok g \<Longrightarrow> revealDeadline g \<noteq> 0 \<Longrightarrow> c \<noteq> NoneChoice \<Longrightarrow>
   game_ok (g\<lparr> player2Choice := c, player2Revealed := True, result := r,
               isCompleted := True, fundsDistributed := True \<rparr>)"
  by (clarsimp simp: game_ok_def) blast?

lemma game_ok_resolved:
  "game_ok g \<Longrightarrow> game_ok (g\<lparr> result := r, isCompleted := True, fundsDistributed := True \<rparr>)"
  by (clarsimp simp: game_ok_def) blast?

lemma game_ok_cancelled:
  "game_ok g \<Longrightarrow> game_ok (g\<lparr> isCompleted := True, result := r \<rparr>)"
  by (clarsimp simp: game_ok_def) blast?

lemma revealChoice_ok:
  assumes ok: "contract_ok s" and c: "revealChoice K b m gameId choice nonce s = Inr s'"
  shows "contract_ok s'"
proof -
  have g: "game_ok (games s gameId)" using ok by (rule contract_ok_game)
  show ?thesis
    using c
    apply (simp add: revealChoice_def Let_def split: if_splits sum.splits)
       apply (auto dest!: determineWinner_games
        intro!: contract_ok_set_game[OF ok] game_ok_reveal1[OF g] game_ok_reveal2[OF g]
                contract_ok_upd[OF ok, where gameId = gameId]
                game_ok_reveal1_last[OF g] game_ok_reveal2_last[OF g]
        simp: word_greater_zero_iff)
    done
qed


lemma handleExpiredGame_games:
  "handleExpiredGame b gameId s = Inr s' \<Longrightarrow>
     \<exists>r. games s' = (games s)(gameId := (games s gameId)
        \<lparr> result := r, isCompleted := True, fundsDistributed := True \<rparr>)"
  by (auto simp: handleExpiredGame_def Let_def dest!: credit_games split: if_splits sum.splits)

lemma handleExpiredGame_ok:
  assumes ok: "contract_ok s" and c: "handleExpiredGame b gameId s = Inr s'"
  shows "contract_ok s'"
  using handleExpiredGame_games[OF c] contract_ok_game[OF ok, of gameId]
  by (auto intro!: contract_ok_upd[OF ok, where gameId = gameId] game_ok_resolved)

lemma cancelGame_games:
  "cancelGame b m gameId s = Inr s' \<Longrightarrow>
     games s' = (games s)(gameId := (games s gameId)\<lparr> isCompleted := True, result := Expired \<rparr>)"
  by (auto simp: cancelGame_def Let_def dest!: credit_games split: if_splits sum.splits)

lemma cancelGame_ok:
  assumes ok: "contract_ok s" and c: "cancelGame b m gameId s = Inr s'"
  shows "contract_ok s'"
  using cancelGame_games[OF c] contract_ok_game[OF ok, of gameId]
  by (auto intro!: contract_ok_upd[OF ok, where gameId = gameId] game_ok_cancelled)

lemma contract_ok_fields [simp]:
  "contract_ok (s\<lparr> entered := e \<rparr>) = contract_ok s"
  "contract_ok (s\<lparr> playerBalances := pb \<rparr>) = contract_ok s"
  "contract_ok (s\<lparr> playerGames := pg \<rparr>) = contract_ok s"
  "contract_ok (s\<lparr> nextGameId := n \<rparr>) = contract_ok s"
  by (simp_all add: contract_ok_def)

lemma withdrawBalance_ok:
  assumes ok: "contract_ok s" and c: "withdrawBalance ext m s = Inr s'"
    and ext: "\<And>a v s0. contract_ok s0 \<Longrightarrow> contract_ok (snd (ext a v s0))"
  shows "contract_ok s'"
proof -
  let ?s1 = "s\<lparr> entered := True, playerBalances := (playerBalances s)(msg_sender m := 0) \<rparr>"
  have "contract_ok ?s1" using ok by simp
  then have "contract_ok (snd (ext (msg_sender m) (playerBalances s (msg_sender m)) ?s1))"
    by (rule ext)
  then show ?thesis
    using c
    by (auto simp: withdrawBalance_def nonReentrant_def Let_def split: if_splits sum.splits prod.splits)
qed

lemma dispatch_ok:
  assumes ok: "contract_ok s" and snd: "msg_sender m \<noteq> 0"
    and c: "dispatch K ext b m c s = Inr s'"
    and ext: "\<And>a v s0. contract_ok s0 \<Longrightarrow> contract_ok (snd (ext a v s0))"
  shows "contract_ok s'"
proof (cases c)
  case CreateGame
  then show ?thesis using c ok by (auto simp: dispatch_def dest: createGame_ok)
next
  case (JoinGame g)
  then show ?thesis using c ok snd by (auto simp: dispatch_def dest: joinGame_ok)
next
  case (CommitChoice g h)
  then show ?thesis using c ok by (auto simp: dispatch_def dest: commitChoice_ok split: if_splits)
next
  case (RevealChoice g ch n)
  then show ?thesis using c ok by (auto simp: dispatch_def dest: revealChoice_ok split: if_splits)
next
  case (HandleExpiredGame g)
  then show ?thesis using c ok by (auto simp: dispatch_def dest: handleExpiredGame_ok split: if_splits)
next
  case WithdrawBalance
  then show ?thesis using c ok ext
    by (auto simp: dispatch_def intro: withdrawBalance_ok split: if_splits)
next
  case (CancelGame g)
  then show ?thesis using c ok by (auto simp: dispatch_def dest: cancelGame_ok split: if_splits)
qed

lemma no_callee_ok: "contract_ok s0 \<Longrightarrow> contract_ok (snd (no_callee a v s0))"
  by (simp add: no_callee_def)

lemma reenter_ok:
  "contract_ok s \<Longrightarrow> list_all (\<lambda>(m', c'). msg_sender m' \<noteq> 0) cs \<Longrightarrow> contract_ok (reenter K b cs s)"
proof (induction cs arbitrary: s)
  case Nil
  then show ?case by simp
next
  case (Cons x cs)
  obtain m c where x: "x = (m, c)" by (cases x)
  have snd: "msg_sender m \<noteq> 0" using Cons.prems(2) x by simp
  have "contract_ok (case dispatch K no_callee b m c s of Inl e \<Rightarrow> s | Inr s' \<Rightarrow> s')"
    using Cons.prems(1) snd dispatch_ok[OF Cons.prems(1) snd _ no_callee_ok]
    by (auto split: sum.splits)
  then show ?case using Cons x by simp
qed

lemma transact_ok:
  assumes "contract_ok s" "tx_ok t" "transact K t s = Inr s'"
  shows "contract_ok s'"
proof -
  obtain b m c sc where t: "t = (b, m, c, sc)" by (cases t)
  have "\<And>a v s0. contract_ok s0 \<Longrightarrow> contract_ok (snd (scripted K b sc a v s0))"
    using assms(2) t by (simp add: scripted_def reenter_ok)
  then show ?thesis
    using assms t dispatch_ok[of s m K "scripted K b sc" b c s'] by simp
qed

lemma init_contract_ok: "contract_ok init_contract"
  by (simp add: contract_ok_def init_contract_def game_ok_def zero_game_def MAX_BET_AMOUNT_def)

lemma reachable_ok: "reachable K s \<Longrightarrow> contract_ok s"
  by (induction rule: reachable.induct) (auto intro: init_contract_ok transact_ok)


lemma reachable_run:
  "reachable K s \<Longrightarrow> list_all tx_ok ts \<Longrightarrow> run K ts s = Inr s' \<Longrightarrow> reachable K s'"
proof (induction ts arbitrary: s)
  case Nil
  then show ?case by simp
next
  case (Cons t ts)
  from Cons.prems(3) obtain s1 where
    s1: "transact K t s = Inr s1" and rest: "run K ts s1 = Inr s'"
    by (auto split: sum.splits)
  have "reachable K s1"
    using Cons.prems(1,2) s1 by (auto intro: reachable.transaction)
  then show ?case using Cons.IH Cons.prems(2) rest by simp
qed

lemma reachable_after_txs:
  "list_all tx_ok ts \<Longrightarrow> \<not> isl (run toy_keccak ts init_contract) \<Longrightarrow>
   reachable toy_keccak (after_txs ts)"
  by (cases "run toy_keccak ts init_contract")
     (auto simp: after_txs_def storage_after_def intro: reachable_run[OF reachable.deployed])

section \<open>Commitments\<close>

lemma commitChoice_player1:
  "commitChoice K b m gameId h s = Inr s' \<Longrightarrow> msg_sender m = player1 (games s gameId) \<Longrightarrow>
     h \<noteq> 0 \<and> player1CommitHash (games s gameId) = 0 \<and>
     player1CommitHash (games s' gameId) = h \<and>
     player2CommitHash (games s' gameId) = player2CommitHash (games s gameId)"
  by (simp add: commitChoice_def Let_def generateRandomSeed_def split: if_splits sum.splits)
    auto

lemma commitChoice_player2:
  "commitChoice K b m gameId h s = Inr s' \<Longrightarrow> msg_sender m \<noteq> player1 (games s gameId) \<Longrightarrow>
     h \<noteq> 0 \<and> msg_sender m = player2 (games s gameId) \<and>
     player2CommitHash (games s gameId) = 0 \<and>
     player2CommitHash (games s' gameId) = h \<and>
     player1CommitHash (games s' gameId) = player1CommitHash (games s gameId)"
  by (simp add: commitChoice_def Let_def generateRandomSeed_def split: if_splits sum.splits)
    auto

text \<open>
  Claim C10. \<open>commitChoice\<close> with the all-zero hash fails for every game, caller and
  time, and leaves the storage as it was. A call that succeeds was made with a nonzero
  hash, found the caller's slot zero and leaves the hash in it, and does not touch the
  other player's slot: a zero slot means "not yet committed". In reachable storage the
  reveal deadline is set exactly when both slots are nonzero.
\<close>

theorem commitChoice_rejects_zero_hash:
  "(\<exists>e. commitChoice K b m gameId 0 s = Inl e) \<and>
   storage_after (commitChoice K b m gameId 0 s) s = s \<and>
   (commitChoice K b m gameId h s = Inr s' \<longrightarrow>
      h \<noteq> 0 \<and>
      stored_commitment (games s gameId) (msg_sender m) = 0 \<and>
      stored_commitment (games s' gameId) (msg_sender m) = h \<and>
      (msg_sender m = player1 (games s gameId) \<longrightarrow>
         player2CommitHash (games s' gameId) = player2CommitHash (games s gameId)) \<and>
      (msg_sender m \<noteq> player1 (games s gameId) \<longrightarrow>
         msg_sender m = player2 (games s gameId) \<and>
         player1CommitHash (games s' gameId) = player1CommitHash (games s gameId))) \<and>
   (reachable K s \<longrightarrow>
      (revealDeadline (games s gameId) \<noteq> 0) =
      (player1CommitHash (games s gameId) \<noteq> 0 \<and> player2CommitHash (games s gameId) \<noteq> 0))"
proof -
  have zero: "\<exists>e. commitChoice K b m gameId 0 s = Inl e"
    by (simp add: commitChoice_def Let_def)
  then have same: "storage_after (commitChoice K b m gameId 0 s) s = s"
    by (auto simp: storage_after_def)
  have players: "commitChoice K b m gameId h s = Inr s' \<Longrightarrow>
      player1 (games s' gameId) = player1 (games s gameId) \<and>
      player2 (games s' gameId) = player2 (games s gameId)"
    by (simp add: commitChoice_def Let_def generateRandomSeed_def split: if_splits sum.splits)
      auto
  have main: "(\<exists>e. commitChoice K b m gameId 0 s = Inl e) \<and>
     storage_after (commitChoice K b m gameId 0 s) s = s \<and>
     (commitChoice K b m gameId h s = Inr s' \<longrightarrow>
        h \<noteq> 0 \<and>
        stored_commitment (games s gameId) (msg_sender m) = 0 \<and>
        stored_commitment (games s' gameId) (msg_sender m) = h \<and>
        (msg_sender m = player1 (games s gameId) \<longrightarrow>
           player2CommitHash (games s' gameId) = player2CommitHash (games s gameId)) \<and>
        (msg_sender m \<noteq> player1 (games s gameId) \<longrightarrow>
           msg_sender m = player2 (games s gameId) \<and>
           player1CommitHash (games s' gameId) = player1CommitHash (games s gameId)))"
  proof (cases "msg_sender m = player1 (games s gameId)")
    case True
    then show ?thesis
      using zero same commitChoice_player1[of K b m gameId h s s'] players
      by (auto simp: stored_commitment_def)
  next
    case False
    then show ?thesis
      using zero same commitChoice_player2[of K b m gameId h s s'] players
      by (auto simp: stored_commitment_def)
  qed
  have inv: "reachable K s \<longrightarrow>
      (revealDeadline (games s gameId) \<noteq> 0) =
      (player1CommitHash (games s gameId) \<noteq> 0 \<and> player2CommitHash (games s gameId) \<noteq> 0)"
  proof
    assume "reachable K s"
    then have "game_ok (games s gameId)" by (intro contract_ok_game reachable_ok)
    then show "(revealDeadline (games s gameId) \<noteq> 0) =
      (player1CommitHash (games s gameId) \<noteq> 0 \<and> player2CommitHash (games s gameId) \<noteq> 0)"
      by (simp add: game_ok_def)
  qed
  show ?thesis using main inv by blast
qed

text \<open>Alice commits in the game Bob has joined; the zero hash is refused there.\<close>

theorem commitChoice_rejects_zero_hash_witness:
  "commitChoice toy_keccak (at_time 1700000020) (from_account alice 0) 1 10485790 st_joined
     = Inr st_committed1 \<and>
   (10485790 :: bytes32) \<noteq> 0 \<and>
   stored_commitment (games st_joined 1) alice = 0 \<and>
   stored_commitment (games st_committed1 1) alice = 10485790 \<and>
   (\<exists>e. commitChoice toy_keccak (at_time 1700000020) (from_account alice 0) 1 0 st_joined = Inl e)"
proof -
  have run: "commitChoice toy_keccak (at_time 1700000020) (from_account alice 0) 1 10485790 st_joined
     = Inr st_committed1"
    by (simp add: st_joined_def st_committed1_def eval_defs)
  have p1: "msg_sender (from_account alice 0) = alice" by (simp add: from_account_def)
  show ?thesis
    using run p1
      commitChoice_rejects_zero_hash[of toy_keccak "at_time 1700000020" "from_account alice 0" 1
        st_joined 10485790 st_committed1]
    by simp
qed


section \<open>Balances and credits\<close>

lemma credit_iff:
  "credit a v s = Inr s' \<longleftrightarrow>
     unat (playerBalances s a) + unat v < 2 ^ 256 \<and>
     s' = s\<lparr> playerBalances := (playerBalances s)(a := playerBalances s a + v) \<rparr>"
  by (auto simp: credit_def checked_add_def)

lemma credit_unat:
  "credit a v s = Inr s' \<Longrightarrow>
     unat (playerBalances s' x) = unat (playerBalances s x) + (if x = a then unat v else 0)"
  by (auto simp: credit_iff unat_word_ariths)

lemma credit_credited:
  "credit a v s = Inr s' \<Longrightarrow> credited s s' x = (if x = a then int (unat v) else 0)"
  by (simp add: credited_def credit_unat)

lemma credited_trans: "credited s s'' x = credited s s' x + credited s' s'' x"
  by (simp add: credited_def)

lemma credited_balances_eq:
  "playerBalances t = playerBalances s \<Longrightarrow> credited s t x = 0"
  "playerBalances t = playerBalances s \<Longrightarrow> credited t s' x = credited s s' x"
  "playerBalances t' = playerBalances s' \<Longrightarrow> credited s t' x = credited s s' x"
  by (simp_all add: credited_def)

lemma bet_doubles:
  "betAmount g \<le> MAX_BET_AMOUNT \<Longrightarrow> checked_mul (betAmount g) 2 = Inr (betAmount g * 2) \<and>
     unat (betAmount g * 2) = 2 * unat (betAmount g)"
proof -
  assume "betAmount g \<le> MAX_BET_AMOUNT"
  then have "unat (betAmount g) \<le> 10000000000000000000"
    by (simp add: word_le_nat_alt MAX_BET_AMOUNT_def)
  then have lt: "unat (betAmount g) * unat (2 :: u256) < 2 ^ LENGTH(256)" by simp
  then have "unat (betAmount g * 2) = unat (betAmount g) * unat (2 :: u256)"
    by (rule unat_mult_lem[THEN iffD1])
  then show ?thesis using lt by (simp add: checked_mul_def)
qed


lemma handleExpiredGame_credited:
  assumes c: "handleExpiredGame b gameId s = Inr s'"
    and bet: "betAmount (games s gameId) \<le> MAX_BET_AMOUNT"
  shows "credited s s' x =
     (if x = player1 (games s gameId) then
        (if player1Revealed (games s gameId) \<and> \<not> player2Revealed (games s gameId)
           then 2 * stake (games s gameId)
         else if \<not> player1Revealed (games s gameId) \<and> player2Revealed (games s gameId) then 0
         else stake (games s gameId))
      else 0) +
     (if x = player2 (games s gameId) then
        (if player1Revealed (games s gameId) \<and> \<not> player2Revealed (games s gameId) then 0
         else if \<not> player1Revealed (games s gameId) \<and> player2Revealed (games s gameId)
           then 2 * stake (games s gameId)
         else stake (games s gameId))
      else 0)"
proof -
  note dbl = bet_doubles[OF bet]
  consider (p1) "player1Revealed (games s gameId) \<and> \<not> player2Revealed (games s gameId)"
    | (p2) "\<not> player1Revealed (games s gameId) \<and> player2Revealed (games s gameId)"
    | (none) "player1Revealed (games s gameId) = player2Revealed (games s gameId)"
    by blast
  then show ?thesis
  proof cases
    case p1
    with c dbl obtain s1 where
      "credit (player1 (games s gameId)) (betAmount (games s gameId) * 2)
         (set_game gameId ((games s gameId)\<lparr> result := Player1Wins \<rparr>) s) = Inr s1"
      "playerBalances s' = playerBalances s1"
      by (auto simp: handleExpiredGame_def Let_def split: if_splits sum.splits)
    then show ?thesis using p1 dbl
      by (simp add: credited_def credit_unat stake_def)
  next
    case p2
    with c dbl obtain s1 where
      "credit (player2 (games s gameId)) (betAmount (games s gameId) * 2)
         (set_game gameId ((games s gameId)\<lparr> result := Player2Wins \<rparr>) s) = Inr s1"
      "playerBalances s' = playerBalances s1"
      by (auto simp: handleExpiredGame_def Let_def split: if_splits sum.splits)
    then show ?thesis using p2 dbl
      by (simp add: credited_def credit_unat stake_def)
  next
    case none
    with c obtain s1 s2 where
      "credit (player1 (games s gameId)) (betAmount (games s gameId))
         (set_game gameId ((games s gameId)\<lparr> result := Expired \<rparr>) s) = Inr s1"
      "credit (player2 (games s gameId)) (betAmount (games s gameId)) s1 = Inr s2"
      "playerBalances s' = playerBalances s2"
      by (auto simp: handleExpiredGame_def Let_def split: if_splits sum.splits)
    then show ?thesis using none
      by (simp add: credited_def credit_unat stake_def)
  qed
qed


lemma handleExpiredGame_result:
  "handleExpiredGame b gameId s = Inr s' \<Longrightarrow>
     isCompleted (games s' gameId) \<and> fundsDistributed (games s' gameId) \<and>
     result (games s' gameId) =
       (if player1Revealed (games s gameId) \<and> \<not> player2Revealed (games s gameId) then Player1Wins
        else if \<not> player1Revealed (games s gameId) \<and> player2Revealed (games s gameId)
          then Player2Wins
        else Expired)"
  by (simp add: handleExpiredGame_def Let_def split: if_splits sum.splits)
     (auto dest!: credit_games)

lemma game_ok_players:
  "game_ok g \<Longrightarrow> revealDeadline g \<noteq> 0 \<Longrightarrow>
     player1 g \<noteq> 0 \<and> player2 g \<noteq> 0 \<and> player1 g \<noteq> player2 g \<and>
     player1CommitHash g \<noteq> 0 \<and> player2CommitHash g \<noteq> 0 \<and> betAmount g \<le> MAX_BET_AMOUNT"
  by (clarsimp simp: game_ok_def) blast?

lemma handleExpiredGame_succeeds:
  assumes set: "revealDeadline (games s gameId) > 0"
    and passed: "block_timestamp b > revealDeadline (games s gameId)"
    and opn: "\<not> isCompleted (games s gameId)"
    and fits: "pot_fits s (games s gameId)"
    and bet: "betAmount (games s gameId) \<le> MAX_BET_AMOUNT"
    and ne: "player1 (games s gameId) \<noteq> player2 (games s gameId)"
  shows "\<exists>s'. handleExpiredGame b gameId s = Inr s'"
proof -
  note dbl = bet_doubles[OF bet]
  have f1: "unat (playerBalances s (player1 (games s gameId))) + unat (betAmount (games s gameId)) < 2 ^ 256"
    and f2: "unat (playerBalances s (player2 (games s gameId))) + unat (betAmount (games s gameId)) < 2 ^ 256"
    and f3: "unat (playerBalances s (player1 (games s gameId))) + unat (betAmount (games s gameId) * 2) < 2 ^ 256"
    and f4: "unat (playerBalances s (player2 (games s gameId))) + unat (betAmount (games s gameId) * 2) < 2 ^ 256"
    using fits dbl by (simp_all add: pot_fits_def)
  show ?thesis
    using set passed opn dbl f1 f2 f3 f4 ne
    by (simp add: handleExpiredGame_def Let_def credit_def checked_add_def set_game_def)
qed

section \<open>The timeout sweep\<close>

text \<open>
  Claim C7. In reachable storage, for a game whose reveal deadline is set and has
  passed and which is not yet completed, \<open>handleExpiredGame\<close> succeeds (given that
  neither player's balance overflows by the pot), sets \<open>isCompleted\<close> and
  \<open>fundsDistributed\<close>, and: if exactly one player revealed, that player is credited
  twice the stake, the other nothing, and the result is that player's win; if neither
  revealed, each is credited the stake and the result is \<open>Expired\<close>. Both having
  revealed cannot occur in a game that is not completed. No other account is credited.
\<close>

theorem handleExpiredGame_resolves:
  assumes r: "reachable K s"
    and set: "revealDeadline (games s gameId) > 0"
    and passed: "block_timestamp b > revealDeadline (games s gameId)"
    and opn: "\<not> isCompleted (games s gameId)"
    and fits: "pot_fits s (games s gameId)"
  shows "\<exists>s'. handleExpiredGame b gameId s = Inr s' \<and>
     isCompleted (games s' gameId) \<and> fundsDistributed (games s' gameId) \<and>
     \<not> (player1Revealed (games s gameId) \<and> player2Revealed (games s gameId)) \<and>
     (player1Revealed (games s gameId) \<and> \<not> player2Revealed (games s gameId) \<longrightarrow>
        result (games s' gameId) = Player1Wins \<and>
        credited s s' (player1 (games s gameId)) = 2 * stake (games s gameId) \<and>
        credited s s' (player2 (games s gameId)) = 0) \<and>
     (\<not> player1Revealed (games s gameId) \<and> player2Revealed (games s gameId) \<longrightarrow>
        result (games s' gameId) = Player2Wins \<and>
        credited s s' (player2 (games s gameId)) = 2 * stake (games s gameId) \<and>
        credited s s' (player1 (games s gameId)) = 0) \<and>
     (\<not> player1Revealed (games s gameId) \<and> \<not> player2Revealed (games s gameId) \<longrightarrow>
        result (games s' gameId) = Expired \<and>
        credited s s' (player1 (games s gameId)) = stake (games s gameId) \<and>
        credited s s' (player2 (games s gameId)) = stake (games s gameId)) \<and>
     (\<forall>x. x \<noteq> player1 (games s gameId) \<and> x \<noteq> player2 (games s gameId) \<longrightarrow>
        credited s s' x = 0)"
proof -
  have g: "game_ok (games s gameId)"
    using r by (intro contract_ok_game reachable_ok)
  have nz: "revealDeadline (games s gameId) \<noteq> 0" using set by auto
  note pl = game_ok_players[OF g nz]
  have notboth: "\<not> (player1Revealed (games s gameId) \<and> player2Revealed (games s gameId))"
    using g opn by (auto simp: game_ok_def)
  from handleExpiredGame_succeeds[OF set passed opn fits] pl
  obtain s' where c: "handleExpiredGame b gameId s = Inr s'" by blast
  note cr = handleExpiredGame_credited[OF c] and res = handleExpiredGame_result[OF c]
  have bet: "betAmount (games s gameId) \<le> MAX_BET_AMOUNT" using pl by simp
  have ne: "player1 (games s gameId) \<noteq> player2 (games s gameId)" using pl by simp
  have "isCompleted (games s' gameId) \<and> fundsDistributed (games s' gameId)"
    using res by simp
  moreover have "player1Revealed (games s gameId) \<and> \<not> player2Revealed (games s gameId) \<longrightarrow>
        result (games s' gameId) = Player1Wins \<and>
        credited s s' (player1 (games s gameId)) = 2 * stake (games s gameId) \<and>
        credited s s' (player2 (games s gameId)) = 0"
    using res ne by (simp add: cr[OF bet])
  moreover have "\<not> player1Revealed (games s gameId) \<and> player2Revealed (games s gameId) \<longrightarrow>
        result (games s' gameId) = Player2Wins \<and>
        credited s s' (player2 (games s gameId)) = 2 * stake (games s gameId) \<and>
        credited s s' (player1 (games s gameId)) = 0"
    using res ne by (simp add: cr[OF bet])
  moreover have "\<not> player1Revealed (games s gameId) \<and> \<not> player2Revealed (games s gameId) \<longrightarrow>
        result (games s' gameId) = Expired \<and>
        credited s s' (player1 (games s gameId)) = stake (games s gameId) \<and>
        credited s s' (player2 (games s gameId)) = stake (games s gameId)"
    using res ne by (simp add: cr[OF bet])
  moreover have "\<forall>x. x \<noteq> player1 (games s gameId) \<and> x \<noteq> player2 (games s gameId) \<longrightarrow>
        credited s s' x = 0"
    by (simp add: cr[OF bet])
  ultimately show ?thesis using c notboth by blast
qed

lemma st_revealed1_reachable: "reachable toy_keccak st_revealed1"
  unfolding st_revealed1_def
  by (rule reachable_after_txs) (simp_all add: eval_defs)

lemma st_revealed1_game:
  "games st_revealed1 1 = \<lparr> player1 = alice, player2 = bob, player1CommitHash = 10485790,
     player2CommitHash = 11534376, player1Choice = Rock, player2Choice = NoneChoice,
     betAmount = bet, commitDeadline = 1700000310, revealDeadline = 1700000330,
     result = Pending, player1Revealed = True, player2Revealed = False, isCompleted = False,
     fundsDistributed = False, randomSeed = 1722020197 \<rparr>"
  by (simp add: st_revealed1_def eval_defs)

lemma st_revealed1_balances: "playerBalances st_revealed1 = (\<lambda>_. 0)"
  by (simp add: st_revealed1_def eval_defs)

text \<open>
  Alice revealed, Bob did not, and the sweep runs one second after the reveal deadline:
  Alice is credited both stakes.
\<close>

theorem handleExpiredGame_resolves_witness:
  "\<not> isl (handleExpiredGame (at_time 1700000331) 1 st_revealed1) \<and>
   result (games (storage_after (handleExpiredGame (at_time 1700000331) 1 st_revealed1) st_revealed1) 1)
     = Player1Wins \<and>
   credited st_revealed1
     (storage_after (handleExpiredGame (at_time 1700000331) 1 st_revealed1) st_revealed1) alice
     = 200000000000000000 \<and>
   credited st_revealed1
     (storage_after (handleExpiredGame (at_time 1700000331) 1 st_revealed1) st_revealed1) bob
     = 0"
proof -
  have fits: "pot_fits st_revealed1 (games st_revealed1 1)"
    by (simp add: pot_fits_def st_revealed1_game st_revealed1_balances bet_def)
  have h: "revealDeadline (games st_revealed1 1) > 0"
    "block_timestamp (at_time 1700000331) > revealDeadline (games st_revealed1 1)"
    "\<not> isCompleted (games st_revealed1 1)"
    by (simp_all add: st_revealed1_game at_time_def)
  from handleExpiredGame_resolves[OF st_revealed1_reachable h fits]
  show ?thesis
    by (auto simp: storage_after_def st_revealed1_game stake_def bet_def)
qed

section \<open>Reveal and resolution\<close>

lemma distributeFunds_credited:
  assumes c: "distributeFunds gameId s = Inr s'"
    and bet: "betAmount (games s gameId) \<le> MAX_BET_AMOUNT"
  shows "credited s s' x =
     (if x = player1 (games s gameId) then
        (if result (games s gameId) = Draw then stake (games s gameId)
         else if result (games s gameId) = Player1Wins then 2 * stake (games s gameId) else 0)
      else 0) +
     (if x = player2 (games s gameId) then
        (if result (games s gameId) = Draw then stake (games s gameId)
         else if result (games s gameId) = Player2Wins then 2 * stake (games s gameId) else 0)
      else 0)"
proof -
  note dbl = bet_doubles[OF bet]
  consider (draw) "result (games s gameId) = Draw"
    | (p1) "result (games s gameId) = Player1Wins"
    | (p2) "result (games s gameId) = Player2Wins"
    | (other) "result (games s gameId) = Pending \<or> result (games s gameId) = Expired"
    by (cases "result (games s gameId)") auto
  then show ?thesis
  proof cases
    case draw
    with c dbl obtain s1 s2 where
      "credit (player1 (games s gameId)) (betAmount (games s gameId)) s = Inr s1"
      "credit (player2 (games s gameId)) (betAmount (games s gameId)) s1 = Inr s2"
      "playerBalances s' = playerBalances s2"
      by (auto simp: distributeFunds_def Let_def split: if_splits sum.splits)
    then show ?thesis using draw
      by (simp add: credited_def credit_unat stake_def)
  next
    case p1
    with c dbl obtain s1 where
      "credit (player1 (games s gameId)) (betAmount (games s gameId) * 2) s = Inr s1"
      "playerBalances s' = playerBalances s1"
      by (auto simp: distributeFunds_def Let_def split: if_splits sum.splits)
    then show ?thesis using p1 dbl
      by (simp add: credited_def credit_unat stake_def)
  next
    case p2
    with c dbl obtain s1 where
      "credit (player2 (games s gameId)) (betAmount (games s gameId) * 2) s = Inr s1"
      "playerBalances s' = playerBalances s1"
      by (auto simp: distributeFunds_def Let_def split: if_splits sum.splits)
    then show ?thesis using p2 dbl
      by (simp add: credited_def credit_unat stake_def)
  next
    case other
    with c dbl have "playerBalances s' = playerBalances s"
      by (auto simp: distributeFunds_def Let_def split: if_splits sum.splits)
    then show ?thesis using other
      by (auto simp: credited_def)
  qed
qed

lemma determineWinner_credited:
  assumes c: "determineWinner gameId s = Inr s'"
    and bet: "betAmount (games s gameId) \<le> MAX_BET_AMOUNT"
  shows "credited s s' x =
     (if x = player1 (games s gameId) then
        (if winner_of (player1Choice (games s gameId)) (player2Choice (games s gameId)) = Draw
           then stake (games s gameId)
         else if winner_of (player1Choice (games s gameId)) (player2Choice (games s gameId)) = Player1Wins
           then 2 * stake (games s gameId) else 0)
      else 0) +
     (if x = player2 (games s gameId) then
        (if winner_of (player1Choice (games s gameId)) (player2Choice (games s gameId)) = Draw
           then stake (games s gameId)
         else if winner_of (player1Choice (games s gameId)) (player2Choice (games s gameId)) = Player2Wins
           then 2 * stake (games s gameId) else 0)
      else 0)"
proof -
  let ?g = "games s gameId"
  let ?s1 = "set_game gameId (?g\<lparr> result := winner_of (player1Choice ?g) (player2Choice ?g),
                                   isCompleted := True \<rparr>) s"
  have d: "distributeFunds gameId ?s1 = Inr s'"
    using c by (simp add: determineWinner_def Let_def winner_of_def)
  have "credited ?s1 s' x = credited s s' x"
    by (simp add: credited_def)
  then show ?thesis
    using distributeFunds_credited[OF d, of x] bet
    by (simp add: stake_def cong del: if_weak_cong)
qed

lemma winner_of_spec:
  "c1 \<noteq> NoneChoice \<Longrightarrow> c2 \<noteq> NoneChoice \<Longrightarrow> winner_of c1 c2 = spec_outcome c1 c2"
  by (cases c1; cases c2) (simp_all add: winner_of_def spec_outcome_def)

lemma winner_of_cases:
  "winner_of c1 c2 = Draw \<or> winner_of c1 c2 = Player1Wins \<or> winner_of c1 c2 = Player2Wins"
  by (simp add: winner_of_def)

lemma revealChoice_Inr:
  assumes c: "revealChoice K b m gameId choice nonce s = Inr s'"
  shows "revealDeadline (games s gameId) > 0 \<and>
     block_timestamp b \<le> revealDeadline (games s gameId) \<and> choice \<noteq> NoneChoice \<and>
     (msg_sender m = player1 (games s gameId) \<or> msg_sender m = player2 (games s gameId)) \<and>
     stored_commitment (games s gameId) (msg_sender m) = commitHashOf K choice nonce (msg_sender m) \<and>
     \<not> has_revealed (games s gameId) (msg_sender m)"
  using c
  by (simp add: revealChoice_def Let_def stored_commitment_def has_revealed_def
        split: if_splits sum.splits)

lemma revealChoice_effect:
  assumes c: "revealChoice K b m gameId choice nonce s = Inr s'"
  shows "if player1Revealed (reveal_written (games s gameId) (msg_sender m) choice) \<and>
            player2Revealed (reveal_written (games s gameId) (msg_sender m) choice)
         then determineWinner gameId
                (set_game gameId (reveal_written (games s gameId) (msg_sender m) choice) s) = Inr s'
         else s' = set_game gameId (reveal_written (games s gameId) (msg_sender m) choice) s"
  using c
  by (simp add: revealChoice_def Let_def reveal_written_def split: if_splits sum.splits)

lemma reveal_written_fields [simp]:
  "player1 (reveal_written g a c) = player1 g"
  "player2 (reveal_written g a c) = player2 g"
  "betAmount (reveal_written g a c) = betAmount g"
  "stake (reveal_written g a c) = stake g"
  by (simp_all add: reveal_written_def stake_def)

lemma reveal_written_choices:
  assumes g: "game_ok g" and c: "c \<noteq> NoneChoice"
    and both: "player1Revealed (reveal_written g a c)" "player2Revealed (reveal_written g a c)"
  shows "player1Choice (reveal_written g a c) \<noteq> NoneChoice \<and>
         player2Choice (reveal_written g a c) \<noteq> NoneChoice \<and>
         revealed_choice (reveal_written g a c) a = c"
  using g c both
  by (auto simp: reveal_written_def game_ok_def revealed_choice_def split: if_splits)

lemma revealChoice_resolution:
  assumes r: "reachable K s"
    and c: "revealChoice K b m gameId choice nonce s = Inr s'"
    and both: "player1Revealed (games s' gameId)" "player2Revealed (games s' gameId)"
  shows "\<exists>c1 c2. c1 \<noteq> NoneChoice \<and> c2 \<noteq> NoneChoice \<and>
     games s' gameId = (reveal_written (games s gameId) (msg_sender m) choice)
        \<lparr> result := winner_of c1 c2, isCompleted := True, fundsDistributed := True \<rparr> \<and>
     player1Choice (games s' gameId) = c1 \<and> player2Choice (games s' gameId) = c2 \<and>
     revealed_choice (games s' gameId) (msg_sender m) = choice \<and>
     player1 (games s gameId) \<noteq> player2 (games s gameId) \<and>
     (\<forall>x. credited s s' x =
        (if x = player1 (games s gameId) then
           (if winner_of c1 c2 = Draw then stake (games s gameId)
            else if winner_of c1 c2 = Player1Wins then 2 * stake (games s gameId) else 0)
         else 0) +
        (if x = player2 (games s gameId) then
           (if winner_of c1 c2 = Draw then stake (games s gameId)
            else if winner_of c1 c2 = Player2Wins then 2 * stake (games s gameId) else 0)
         else 0))"
proof -
  let ?g = "games s gameId"
  let ?g1 = "reveal_written ?g (msg_sender m) choice"
  let ?s1 = "set_game gameId ?g1 s"
  have g: "game_ok ?g" using r by (intro contract_ok_game reachable_ok)
  note pre = revealChoice_Inr[OF c]
  have nz: "revealDeadline ?g \<noteq> 0" using pre by auto
  note pl = game_ok_players[OF g nz]
  have ch: "choice \<noteq> NoneChoice" using pre by simp
  have both1: "player1Revealed ?g1 \<and> player2Revealed ?g1"
  proof (rule ccontr)
    assume "\<not> ?thesis"
    then have "s' = ?s1" using revealChoice_effect[OF c] by (simp split: if_splits)
    then show False using both \<open>\<not> (player1Revealed ?g1 \<and> player2Revealed ?g1)\<close> by simp
  qed
  then have d: "determineWinner gameId ?s1 = Inr s'"
    using revealChoice_effect[OF c] by simp
  note chs = reveal_written_choices[OF g ch both1[THEN conjunct1] both1[THEN conjunct2]]
  have gs: "games s' gameId = ?g1\<lparr> result := winner_of (player1Choice ?g1) (player2Choice ?g1),
      isCompleted := True, fundsDistributed := True \<rparr>"
    using determineWinner_games[OF d] by simp
  have bet: "betAmount (games ?s1 gameId) \<le> MAX_BET_AMOUNT" using pl by simp
  have cr: "\<And>x. credited s s' x = credited ?s1 s' x" by (simp add: credited_def)
  have rc: "revealed_choice (games s' gameId) (msg_sender m) = choice"
    using chs by (auto simp: gs revealed_choice_def split: if_splits)
  show ?thesis
    apply (rule exI[of _ "player1Choice ?g1"], rule exI[of _ "player2Choice ?g1"])
    using chs pl gs rc
    apply (simp add: cr determineWinner_credited[OF d bet] cong del: if_weak_cong)
    done
qed

lemma st_resolved_game:
  "games st_resolved 1 = \<lparr> player1 = alice, player2 = bob, player1CommitHash = 10485790,
     player2CommitHash = 11534376, player1Choice = Rock, player2Choice = Scissors,
     betAmount = bet, commitDeadline = 1700000310, revealDeadline = 1700000330,
     result = Player1Wins, player1Revealed = True, player2Revealed = True, isCompleted = True,
     fundsDistributed = True, randomSeed = 1722020197 \<rparr>"
  by (simp add: st_resolved_def eval_defs)

lemma st_resolved_balances: "playerBalances st_resolved = (\<lambda>_. 0)(alice := 2 * bet)"
  by (simp add: st_resolved_def eval_defs)

lemma st_revealed1_reveal2:
  "revealChoice toy_keccak (at_time 1700000050) (from_account bob 0) 1 Scissors 9 st_revealed1
     = Inr st_resolved"
  by (simp add: st_revealed1_def st_resolved_def eval_defs)

section \<open>Withdrawal\<close>

lemma withdrawBalance_entered:
  "entered s \<Longrightarrow> withdrawBalance ext m s = Inl ReentrancyGuardReentrantCall"
  by (simp add: withdrawBalance_def nonReentrant_def)

lemma commitChoice_entered:
  "commitChoice K b m gameId h s = Inr s' \<Longrightarrow> entered s' = entered s"
  by (simp add: commitChoice_def Let_def generateRandomSeed_def split: if_splits sum.splits)
     auto

lemma distributeFunds_entered:
  "distributeFunds gameId s = Inr s' \<Longrightarrow> entered s' = entered s"
  by (simp add: distributeFunds_def Let_def split: if_splits sum.splits)
     (auto dest!: credit_entered)

lemma determineWinner_entered:
  "determineWinner gameId s = Inr s' \<Longrightarrow> entered s' = entered s"
  by (auto simp: determineWinner_def Let_def dest!: distributeFunds_entered)

lemma revealChoice_entered:
  "revealChoice K b m gameId choice nonce s = Inr s' \<Longrightarrow> entered s' = entered s"
  using revealChoice_effect[of K b m gameId choice nonce s s']
  by (auto dest!: determineWinner_entered split: if_splits)

lemma handleExpiredGame_entered:
  "handleExpiredGame b gameId s = Inr s' \<Longrightarrow> entered s' = entered s"
  by (simp add: handleExpiredGame_def Let_def split: if_splits sum.splits)
     (auto dest!: credit_entered)

lemma cancelGame_entered:
  "cancelGame b m gameId s = Inr s' \<Longrightarrow> entered s' = entered s"
  by (simp add: cancelGame_def Let_def split: if_splits sum.splits)
     (auto dest!: credit_entered)

lemma dispatch_entered:
  assumes e: "entered s" and c: "dispatch K ext b m c s = Inr s'"
  shows "entered s'"
proof (cases c)
  case CreateGame
  then show ?thesis using c e by (simp add: dispatch_def createGame_def nonReentrant_def)
next
  case (JoinGame g)
  then show ?thesis using c e by (simp add: dispatch_def joinGame_def nonReentrant_def)
next
  case (CommitChoice g h)
  then show ?thesis using c e by (auto simp: dispatch_def dest: commitChoice_entered split: if_splits)
next
  case (RevealChoice g ch n)
  then show ?thesis using c e by (auto simp: dispatch_def dest: revealChoice_entered split: if_splits)
next
  case (HandleExpiredGame g)
  then show ?thesis using c e
    by (auto simp: dispatch_def dest: handleExpiredGame_entered split: if_splits)
next
  case WithdrawBalance
  then show ?thesis using c e by (auto simp: dispatch_def withdrawBalance_entered split: if_splits)
next
  case (CancelGame g)
  then show ?thesis using c e by (auto simp: dispatch_def dest: cancelGame_entered split: if_splits)
qed

lemma reenter_entered: "entered s \<Longrightarrow> entered (reenter K b cs s)"
proof (induction cs arbitrary: s)
  case Nil
  then show ?case by simp
next
  case (Cons x cs)
  obtain m c where x: "x = (m, c)" by (cases x)
  have "entered (case dispatch K no_callee b m c s of Inl e \<Rightarrow> s | Inr s' \<Rightarrow> s')"
    using Cons.prems dispatch_entered[of s K no_callee b m c] by (auto split: sum.splits)
  then show ?case using Cons.IH x by simp
qed

text \<open>
  Claim C8. For a caller with a nonzero balance (and the guard not entered),
  \<open>withdrawBalance\<close> makes its external call on storage in which the caller's balance
  is already zero, passing the previous balance as the amount; what the call returns
  decides the rest. If it reports failure the whole call fails with
  \<open>Withdrawal failed\<close> and the storage, the caller's balance included, is as before the
  call. Whatever the called address does meanwhile (any list of calls back into the
  contract), a nested \<open>withdrawBalance\<close> by anyone fails on the reentrancy guard.
\<close>

theorem withdrawBalance_zeroes_before_transfer:
  assumes ne: "\<not> entered s" and pos: "playerBalances s (msg_sender m) \<noteq> 0"
  shows "playerBalances (at_external_call m s) (msg_sender m) = 0 \<and>
     withdrawBalance ext m s =
       (if fst (ext (msg_sender m) (playerBalances s (msg_sender m)) (at_external_call m s))
        then Inr ((snd (ext (msg_sender m) (playerBalances s (msg_sender m))
                          (at_external_call m s)))\<lparr> entered := False \<rparr>)
        else Inl (Revert ''Withdrawal failed'')) \<and>
     (\<not> fst (ext (msg_sender m) (playerBalances s (msg_sender m)) (at_external_call m s)) \<longrightarrow>
        storage_after (withdrawBalance ext m s) s = s) \<and>
     (\<forall>ext' m' cs.
        withdrawBalance ext' m' (reenter K b cs (at_external_call m s))
          = Inl ReentrancyGuardReentrantCall)"
proof -
  have pos': "0 < playerBalances s (msg_sender m)" using pos by (simp add: word_greater_zero_iff)
  have w: "withdrawBalance ext m s =
       (if fst (ext (msg_sender m) (playerBalances s (msg_sender m)) (at_external_call m s))
        then Inr ((snd (ext (msg_sender m) (playerBalances s (msg_sender m))
                          (at_external_call m s)))\<lparr> entered := False \<rparr>)
        else Inl (Revert ''Withdrawal failed''))"
    using ne pos'
    by (simp add: withdrawBalance_def nonReentrant_def Let_def at_external_call_def
          split: prod.splits)
  have z: "playerBalances (at_external_call m s) (msg_sender m) = 0"
    by (simp add: at_external_call_def)
  have f: "\<not> fst (ext (msg_sender m) (playerBalances s (msg_sender m)) (at_external_call m s)) \<longrightarrow>
        storage_after (withdrawBalance ext m s) s = s"
    by (simp add: w storage_after_def)
  have "entered (at_external_call m s)" by (simp add: at_external_call_def)
  then have "\<And>cs. entered (reenter K b cs (at_external_call m s))"
    by (rule reenter_entered)
  then have re: "\<forall>ext' m' cs.
        withdrawBalance ext' m' (reenter K b cs (at_external_call m s))
          = Inl ReentrancyGuardReentrantCall"
    by (simp add: withdrawBalance_entered)
  show ?thesis using z w f re by blast
qed

lemma from_account_sel [simp]:
  "msg_sender (from_account a v) = a" "msg_value (from_account a v) = v"
  by (simp_all add: from_account_def)

lemma at_external_call_sel:
  "playerBalances (at_external_call m s) = (playerBalances s)(msg_sender m := 0)"
  "entered (at_external_call m s)"
  by (simp_all add: at_external_call_def)

lemma st_resolved_entered: "\<not> entered st_resolved"
  by (simp add: st_resolved_def eval_defs)

text \<open>
  Alice withdraws her winnings of 0.2 ether; her address tries to withdraw again from
  inside the external call. With a successful transfer her balance ends at zero; with a
  failed transfer the call reverts.
\<close>

theorem withdrawBalance_zeroes_before_transfer_witness:
  "playerBalances st_resolved alice = 200000000000000000 \<and>
   \<not> isl (withdrawBalance
            (scripted toy_keccak (at_time 1700000100) ([(from_account alice 0, WithdrawBalance)], True))
            (from_account alice 0) st_resolved) \<and>
   playerBalances
     (storage_after
        (withdrawBalance
           (scripted toy_keccak (at_time 1700000100) ([(from_account alice 0, WithdrawBalance)], True))
           (from_account alice 0) st_resolved)
        st_resolved) alice = 0 \<and>
   withdrawBalance
     (scripted toy_keccak (at_time 1700000100) ([(from_account alice 0, WithdrawBalance)], False))
     (from_account alice 0) st_resolved = Inl (Revert ''Withdrawal failed'')"
proof -
  have bal: "playerBalances st_resolved (msg_sender (from_account alice 0)) \<noteq> 0"
    by (simp add: st_resolved_balances bet_def)
  have "\<forall>ext' m' cs. withdrawBalance ext' m'
            (reenter toy_keccak (at_time 1700000100) cs
               (at_external_call (from_account alice 0) st_resolved))
          = Inl ReentrancyGuardReentrantCall"
    using withdrawBalance_zeroes_before_transfer[OF st_resolved_entered bal,
        of no_callee toy_keccak "at_time 1700000100"]
    by blast
  then have "withdrawBalance no_callee (from_account alice 0)
            (reenter toy_keccak (at_time 1700000100) []
               (at_external_call (from_account alice 0) st_resolved))
          = Inl ReentrancyGuardReentrantCall"
    by blast
  then have re: "dispatch toy_keccak no_callee (at_time 1700000100) (from_account alice 0)
              WithdrawBalance (at_external_call (from_account alice 0) st_resolved)
            = Inl ReentrancyGuardReentrantCall"
    by (simp add: dispatch_def)
  show ?thesis
    using withdrawBalance_zeroes_before_transfer[OF st_resolved_entered bal,
        of "scripted toy_keccak (at_time 1700000100) ([(from_account alice 0, WithdrawBalance)], True)"]
      withdrawBalance_zeroes_before_transfer[OF st_resolved_entered bal,
        of "scripted toy_keccak (at_time 1700000100) ([(from_account alice 0, WithdrawBalance)], False)"]
    by (simp add: scripted_def re storage_after_def st_resolved_balances bet_def
          at_external_call_sel)
qed

section \<open>Commitment binding\<close>

lemma distributeFunds_succeeds:
  assumes nd: "\<not> fundsDistributed (games s gameId)"
    and bet: "betAmount (games s gameId) \<le> MAX_BET_AMOUNT"
    and ne: "player1 (games s gameId) \<noteq> player2 (games s gameId)"
    and fits: "pot_fits s (games s gameId)"
  shows "\<exists>s'. distributeFunds gameId s = Inr s'"
proof -
  note dbl = bet_doubles[OF bet]
  have f1: "unat (playerBalances s (player1 (games s gameId))) + unat (betAmount (games s gameId)) < 2 ^ 256"
    and f2: "unat (playerBalances s (player2 (games s gameId))) + unat (betAmount (games s gameId)) < 2 ^ 256"
    and f3: "unat (playerBalances s (player1 (games s gameId))) + unat (betAmount (games s gameId) * 2) < 2 ^ 256"
    and f4: "unat (playerBalances s (player2 (games s gameId))) + unat (betAmount (games s gameId) * 2) < 2 ^ 256"
    using fits dbl by (simp_all add: pot_fits_def)
  show ?thesis
    using nd dbl f1 f2 f3 f4 ne
    by (simp add: distributeFunds_def Let_def credit_def checked_add_def set_game_def)
qed

lemma determineWinner_succeeds:
  assumes nd: "\<not> fundsDistributed (games s gameId)"
    and bet: "betAmount (games s gameId) \<le> MAX_BET_AMOUNT"
    and ne: "player1 (games s gameId) \<noteq> player2 (games s gameId)"
    and fits: "pot_fits s (games s gameId)"
  shows "\<exists>s'. determineWinner gameId s = Inr s'"
proof -
  let ?g = "games s gameId"
  let ?s1 = "set_game gameId (?g\<lparr> result := winner_of (player1Choice ?g) (player2Choice ?g),
                                   isCompleted := True \<rparr>) s"
  have "\<exists>s'. distributeFunds gameId ?s1 = Inr s'"
    using nd bet ne fits by (intro distributeFunds_succeeds) (simp_all add: pot_fits_def)
  then show ?thesis by (simp add: determineWinner_def Let_def winner_of_def)
qed

lemma revealChoice_mismatch:
  assumes opn: "revealDeadline (games s gameId) > 0"
      "block_timestamp b \<le> revealDeadline (games s gameId)"
    and part: "msg_sender m = player1 (games s gameId) \<or> msg_sender m = player2 (games s gameId)"
    and valid: "choice \<noteq> NoneChoice"
    and mis: "commitHashOf K choice nonce (msg_sender m)
                \<noteq> stored_commitment (games s gameId) (msg_sender m)"
  shows "revealChoice K b m gameId choice nonce s = Inl (Revert ''Invalid reveal'')"
  using assms
  by (auto simp: revealChoice_def Let_def stored_commitment_def split: if_splits)

lemma revealChoice_again:
  assumes opn: "revealDeadline (games s gameId) > 0"
      "block_timestamp b \<le> revealDeadline (games s gameId)"
    and part: "msg_sender m = player1 (games s gameId) \<or> msg_sender m = player2 (games s gameId)"
    and valid: "choice \<noteq> NoneChoice"
    and eq: "commitHashOf K choice nonce (msg_sender m)
                = stored_commitment (games s gameId) (msg_sender m)"
    and rev: "has_revealed (games s gameId) (msg_sender m)"
  shows "revealChoice K b m gameId choice nonce s = Inl (Revert ''Already revealed'')"
  using assms
  by (auto simp: revealChoice_def Let_def stored_commitment_def has_revealed_def split: if_splits)

lemma revealChoice_succeeds:
  assumes opn: "revealDeadline (games s gameId) > 0"
      "block_timestamp b \<le> revealDeadline (games s gameId)"
    and part: "msg_sender m = player1 (games s gameId) \<or> msg_sender m = player2 (games s gameId)"
    and valid: "choice \<noteq> NoneChoice"
    and eq: "commitHashOf K choice nonce (msg_sender m)
                = stored_commitment (games s gameId) (msg_sender m)"
    and rev: "\<not> has_revealed (games s gameId) (msg_sender m)"
    and bet: "betAmount (games s gameId) \<le> MAX_BET_AMOUNT"
    and ne: "player1 (games s gameId) \<noteq> player2 (games s gameId)"
    and res: "other_revealed (games s gameId) (msg_sender m) \<longrightarrow>
                \<not> fundsDistributed (games s gameId) \<and> pot_fits s (games s gameId)"
  shows "\<exists>s'. revealChoice K b m gameId choice nonce s = Inr s'"
proof -
  let ?g = "games s gameId"
  let ?g1 = "reveal_written ?g (msg_sender m) choice"
  let ?s1 = "set_game gameId ?g1 s"
  have r: "revealChoice K b m gameId choice nonce s =
      (if player1Revealed ?g1 \<and> player2Revealed ?g1 then determineWinner gameId ?s1 else Inr ?s1)"
    using opn part valid eq rev ne
    by (auto simp: revealChoice_def Let_def stored_commitment_def has_revealed_def
          reveal_written_def)
  show ?thesis
  proof (cases "player1Revealed ?g1 \<and> player2Revealed ?g1")
    case False
    then show ?thesis by (auto simp: r)
  next
    case True
    then have "other_revealed ?g (msg_sender m)"
      using part ne by (auto simp: reveal_written_def other_revealed_def split: if_splits)
    then have "\<not> fundsDistributed ?g \<and> pot_fits s ?g" using res by simp
    then have "\<exists>s'. determineWinner gameId ?s1 = Inr s'"
      using bet ne
      by (intro determineWinner_succeeds) (auto simp: pot_fits_def reveal_written_def)
    then show ?thesis using True by (auto simp: r)
  qed
qed

text \<open>
  Claim C5 as stated fails: Alice, a participant who committed, calls \<open>revealChoice\<close>
  in the open reveal phase with the very choice and nonce of her commitment, so the
  recomputed hash equals the stored one, and the call fails, because she has revealed
  already.
\<close>

theorem revealChoice_already_revealed_counterexample:
  "msg_sender (from_account alice 0) = player1 (games st_revealed1 1) \<and>
   player1CommitHash (games st_revealed1 1) \<noteq> 0 \<and>
   0 < revealDeadline (games st_revealed1 1) \<and>
   block_timestamp (at_time 1700000045) \<le> revealDeadline (games st_revealed1 1) \<and>
   commitHashOf toy_keccak Rock 7 alice = player1CommitHash (games st_revealed1 1) \<and>
   revealChoice toy_keccak (at_time 1700000045) (from_account alice 0) 1 Rock 7 st_revealed1
     = Inl (Revert ''Already revealed'')"
  by (simp add: st_revealed1_game at_time_def revealChoice_def Let_def toy_keccak_def alice_def
        bob_def)

text \<open>
  Claim C5, amended. In reachable storage, in the open reveal phase, for a participant
  and a choice other than \<open>None\<close>: if the hash recomputed over (choice, nonce, caller)
  differs from the commitment stored for the caller, the call fails with
  \<open>Invalid reveal\<close> (this is what rejects another participant's choice and nonce: they
  are hashed with the caller's own address and compared with the caller's own slot); if
  it is equal and the caller has revealed already, the call fails with
  \<open>Already revealed\<close>; if the caller has not revealed yet (and, when this is the second
  reveal, the funds are not yet distributed and the pot fits the balances), the call
  succeeds iff the hashes are equal. A reveal that succeeds records the choice and the
  revealed flag of the caller.
\<close>

theorem revealChoice_commitment_binding:
  assumes r: "reachable K s"
    and opn: "revealDeadline (games s gameId) > 0"
      "block_timestamp b \<le> revealDeadline (games s gameId)"
    and part: "msg_sender m = player1 (games s gameId) \<or> msg_sender m = player2 (games s gameId)"
    and valid: "choice \<noteq> NoneChoice"
  shows
    "(commitHashOf K choice nonce (msg_sender m)
        \<noteq> stored_commitment (games s gameId) (msg_sender m) \<longrightarrow>
        revealChoice K b m gameId choice nonce s = Inl (Revert ''Invalid reveal'')) \<and>
     (commitHashOf K choice nonce (msg_sender m)
        = stored_commitment (games s gameId) (msg_sender m) \<and>
      has_revealed (games s gameId) (msg_sender m) \<longrightarrow>
        revealChoice K b m gameId choice nonce s = Inl (Revert ''Already revealed'')) \<and>
     (\<not> has_revealed (games s gameId) (msg_sender m) \<and>
      (other_revealed (games s gameId) (msg_sender m) \<longrightarrow>
         \<not> fundsDistributed (games s gameId) \<and> pot_fits s (games s gameId)) \<longrightarrow>
        (\<exists>s'. revealChoice K b m gameId choice nonce s = Inr s') =
        (commitHashOf K choice nonce (msg_sender m)
           = stored_commitment (games s gameId) (msg_sender m))) \<and>
     (\<forall>s'. revealChoice K b m gameId choice nonce s = Inr s' \<longrightarrow>
        has_revealed (games s' gameId) (msg_sender m) \<and>
        revealed_choice (games s' gameId) (msg_sender m) = choice)"
proof -
  let ?g = "games s gameId"
  have g: "game_ok ?g" using r by (intro contract_ok_game reachable_ok)
  have nz: "revealDeadline ?g \<noteq> 0" using opn by auto
  note pl = game_ok_players[OF g nz]
  have bet: "betAmount ?g \<le> MAX_BET_AMOUNT" and ne: "player1 ?g \<noteq> player2 ?g"
    using pl by simp_all
  have a: "commitHashOf K choice nonce (msg_sender m) \<noteq> stored_commitment ?g (msg_sender m) \<longrightarrow>
        revealChoice K b m gameId choice nonce s = Inl (Revert ''Invalid reveal'')"
    using revealChoice_mismatch[OF opn part valid] by blast
  have b: "commitHashOf K choice nonce (msg_sender m) = stored_commitment ?g (msg_sender m) \<and>
      has_revealed ?g (msg_sender m) \<longrightarrow>
        revealChoice K b m gameId choice nonce s = Inl (Revert ''Already revealed'')"
    using revealChoice_again[OF opn part valid] by blast
  have c: "\<not> has_revealed ?g (msg_sender m) \<and>
      (other_revealed ?g (msg_sender m) \<longrightarrow> \<not> fundsDistributed ?g \<and> pot_fits s ?g) \<longrightarrow>
        (\<exists>s'. revealChoice K b m gameId choice nonce s = Inr s') =
        (commitHashOf K choice nonce (msg_sender m) = stored_commitment ?g (msg_sender m))"
  proof (intro impI iffI)
    assume "\<exists>s'. revealChoice K b m gameId choice nonce s = Inr s'"
    then show "commitHashOf K choice nonce (msg_sender m) = stored_commitment ?g (msg_sender m)"
      using a by auto
  next
    assume h: "\<not> has_revealed ?g (msg_sender m) \<and>
      (other_revealed ?g (msg_sender m) \<longrightarrow> \<not> fundsDistributed ?g \<and> pot_fits s ?g)"
      and e: "commitHashOf K choice nonce (msg_sender m) = stored_commitment ?g (msg_sender m)"
    show "\<exists>s'. revealChoice K b m gameId choice nonce s = Inr s'"
      using revealChoice_succeeds[OF opn part valid e h[THEN conjunct1] bet ne h[THEN conjunct2]] .
  qed
  have d: "\<forall>s'. revealChoice K b m gameId choice nonce s = Inr s' \<longrightarrow>
        has_revealed (games s' gameId) (msg_sender m) \<and>
        revealed_choice (games s' gameId) (msg_sender m) = choice"
  proof (intro allI impI)
    fix s' assume ok: "revealChoice K b m gameId choice nonce s = Inr s'"
    let ?g1 = "reveal_written ?g (msg_sender m) choice"
    have w: "has_revealed ?g1 (msg_sender m) \<and> revealed_choice ?g1 (msg_sender m) = choice"
      by (simp add: reveal_written_def has_revealed_def revealed_choice_def)
    show "has_revealed (games s' gameId) (msg_sender m) \<and>
        revealed_choice (games s' gameId) (msg_sender m) = choice"
    proof (cases "player1Revealed ?g1 \<and> player2Revealed ?g1")
      case True
      then have "determineWinner gameId (set_game gameId ?g1 s) = Inr s'"
        using revealChoice_effect[OF ok] by simp
      from determineWinner_games[OF this] show ?thesis
        using w by (auto simp: has_revealed_def revealed_choice_def split: if_splits)
    next
      case False
      then have "s' = set_game gameId ?g1 s"
        using revealChoice_effect[OF ok] by (simp split: if_splits)
      then show ?thesis using w by simp
    qed
  qed
  show ?thesis using a b c d by blast
qed

lemma st_committed_reachable: "reachable toy_keccak st_committed"
  unfolding st_committed_def
  by (rule reachable_after_txs) (simp_all add: eval_defs)

lemma st_committed_game:
  "games st_committed 1 = \<lparr> player1 = alice, player2 = bob, player1CommitHash = 10485790,
     player2CommitHash = 11534376, player1Choice = NoneChoice, player2Choice = NoneChoice,
     betAmount = bet, commitDeadline = 1700000310, revealDeadline = 1700000330,
     result = Pending, player1Revealed = False, player2Revealed = False, isCompleted = False,
     fundsDistributed = False, randomSeed = 1722020197 \<rparr>"
  by (simp add: st_committed_def eval_defs)

text \<open>
  After both commitments: Alice with another choice is rejected, Bob replaying Alice's
  choice and nonce is rejected, Alice with her own choice and nonce is accepted.
\<close>

theorem revealChoice_commitment_binding_witness:
  "revealChoice toy_keccak (at_time 1700000040) (from_account alice 0) 1 Paper 7 st_committed
     = Inl (Revert ''Invalid reveal'') \<and>
   commitHashOf toy_keccak Rock 7 alice = stored_commitment (games st_committed 1) alice \<and>
   revealChoice toy_keccak (at_time 1700000040) (from_account bob 0) 1 Rock 7 st_committed
     = Inl (Revert ''Invalid reveal'') \<and>
   (\<exists>s'. revealChoice toy_keccak (at_time 1700000040) (from_account alice 0) 1 Rock 7 st_committed
           = Inr s')"
proof -
  have opn: "revealDeadline (games st_committed 1) > 0"
    "block_timestamp (at_time 1700000040) \<le> revealDeadline (games st_committed 1)"
    by (simp_all add: st_committed_game at_time_def)
  have pa: "msg_sender (from_account alice 0) = player1 (games st_committed 1)
            \<or> msg_sender (from_account alice 0) = player2 (games st_committed 1)"
    and pb: "msg_sender (from_account bob 0) = player1 (games st_committed 1)
            \<or> msg_sender (from_account bob 0) = player2 (games st_committed 1)"
    by (simp_all add: st_committed_game)
  have v: "Paper \<noteq> NoneChoice" "Rock \<noteq> NoneChoice" by simp_all
  note t1 = revealChoice_commitment_binding[OF st_committed_reachable opn pa v(1), of 7]
  note t2 = revealChoice_commitment_binding[OF st_committed_reachable opn pb v(2), of 7]
  note t3 = revealChoice_commitment_binding[OF st_committed_reachable opn pa v(2), of 7]
  have h: "commitHashOf toy_keccak Paper 7 alice \<noteq> stored_commitment (games st_committed 1) alice"
    "commitHashOf toy_keccak Rock 7 bob \<noteq> stored_commitment (games st_committed 1) bob"
    "commitHashOf toy_keccak Rock 7 alice = stored_commitment (games st_committed 1) alice"
    "\<not> has_revealed (games st_committed 1) alice"
    "\<not> other_revealed (games st_committed 1) alice"
    by (simp_all add: st_committed_game stored_commitment_def has_revealed_def other_revealed_def
          toy_keccak_def alice_def bob_def)
  show ?thesis using t1 t2 t3 h by simp
qed

section \<open>Outcome and conservation\<close>

lemma second_reveal_frame:
  assumes r: "reachable K s"
    and c: "revealChoice K b m gameId choice nonce s = Inr s'"
    and other: "other_revealed (games s gameId) (msg_sender m)"
  shows "player1 (games s gameId) \<noteq> player2 (games s gameId) \<and>
     (msg_sender m = player1 (games s gameId) \<or> msg_sender m = player2 (games s gameId)) \<and>
     choice \<noteq> NoneChoice \<and>
     (msg_sender m = player1 (games s gameId) \<longrightarrow> player2Choice (games s gameId) \<noteq> NoneChoice) \<and>
     (msg_sender m \<noteq> player1 (games s gameId) \<longrightarrow> player1Choice (games s gameId) \<noteq> NoneChoice) \<and>
     games s' = (games s)(gameId :=
       (reveal_written (games s gameId) (msg_sender m) choice)
         \<lparr> result := winner_of
              (if msg_sender m = player1 (games s gameId) then choice
               else player1Choice (games s gameId))
              (if msg_sender m = player1 (games s gameId) then player2Choice (games s gameId)
               else choice),
           isCompleted := True, fundsDistributed := True \<rparr>) \<and>
     (\<forall>x. credited s s' x =
        credited (set_game gameId (reveal_written (games s gameId) (msg_sender m) choice) s) s' x) \<and>
     determineWinner gameId
       (set_game gameId (reveal_written (games s gameId) (msg_sender m) choice) s) = Inr s'"
proof -
  let ?g = "games s gameId"
  let ?g1 = "reveal_written ?g (msg_sender m) choice"
  let ?s1 = "set_game gameId ?g1 s"
  have g: "game_ok ?g" using r by (intro contract_ok_game reachable_ok)
  note pre = revealChoice_Inr[OF c]
  have nz: "revealDeadline ?g \<noteq> 0" using pre by auto
  note pl = game_ok_players[OF g nz]
  have ne: "player1 ?g \<noteq> player2 ?g" using pl by simp
  have part: "msg_sender m = player1 ?g \<or> msg_sender m = player2 ?g" using pre by simp
  have ch: "choice \<noteq> NoneChoice" using pre by simp
  have both1: "player1Revealed ?g1 \<and> player2Revealed ?g1"
    using other part ne by (auto simp: reveal_written_def other_revealed_def)
  then have d: "determineWinner gameId ?s1 = Inr s'"
    using revealChoice_effect[OF c] by simp
  have o1: "msg_sender m = player1 ?g \<longrightarrow> player2Choice ?g \<noteq> NoneChoice"
    using other g by (auto simp: other_revealed_def game_ok_def)
  have o2: "msg_sender m \<noteq> player1 ?g \<longrightarrow> player1Choice ?g \<noteq> NoneChoice"
    using other g by (auto simp: other_revealed_def game_ok_def)
  have c1: "player1Choice ?g1 = (if msg_sender m = player1 ?g then choice else player1Choice ?g)"
    and c2: "player2Choice ?g1 = (if msg_sender m = player1 ?g then player2Choice ?g else choice)"
    by (simp_all add: reveal_written_def)
  have gs: "games s' = (games s)(gameId := ?g1
         \<lparr> result := winner_of
              (if msg_sender m = player1 ?g then choice else player1Choice ?g)
              (if msg_sender m = player1 ?g then player2Choice ?g else choice),
           isCompleted := True, fundsDistributed := True \<rparr>)"
    using determineWinner_games[OF d] by (simp add: c1 c2)
  have cr: "\<forall>x. credited s s' x = credited ?s1 s' x" by (simp add: credited_def)
  show ?thesis using ne part ch o1 o2 gs cr d by blast
qed

text \<open>
  Claim C6. In reachable storage, let the other player have revealed already. A
  \<open>revealChoice\<close> that succeeds then leaves both players revealed and the game completed
  with its funds distributed; the players and the stake are those of the game before the
  call, the caller's recorded choice is the one just revealed and the other player's is
  the one recorded before; the result is the one the outcome rule of the specification
  gives for these two choices (Rock beats Scissors, Paper beats Rock, Scissors beats
  Paper, equal choices draw); and the credits follow it: the winner is credited twice the
  stake and the loser nothing, on a draw each player is credited the stake, and nobody
  else is credited. Such a call does succeed when the reveal phase is open, the choice
  is valid, the hash matches, the caller has not revealed, the funds are not yet
  distributed and the pot fits the balances.
\<close>

theorem both_revealed_outcome_and_credits:
  assumes r: "reachable K s"
    and other: "other_revealed (games s gameId) (msg_sender m)"
  shows
    "(revealChoice K b m gameId choice nonce s = Inr s' \<longrightarrow>
        player1Revealed (games s' gameId) \<and> player2Revealed (games s' gameId) \<and>
        player1 (games s' gameId) = player1 (games s gameId) \<and>
        player2 (games s' gameId) = player2 (games s gameId) \<and>
        betAmount (games s' gameId) = betAmount (games s gameId) \<and>
        player1Choice (games s' gameId) =
          (if msg_sender m = player1 (games s gameId) then choice
           else player1Choice (games s gameId)) \<and>
        player2Choice (games s' gameId) =
          (if msg_sender m = player1 (games s gameId) then player2Choice (games s gameId)
           else choice) \<and>
        result (games s' gameId) =
          spec_outcome
            (if msg_sender m = player1 (games s gameId) then choice
             else player1Choice (games s gameId))
            (if msg_sender m = player1 (games s gameId) then player2Choice (games s gameId)
             else choice) \<and>
        games s' = (games s)(gameId :=
          (reveal_written (games s gameId) (msg_sender m) choice)
            \<lparr> result :=
                spec_outcome
                  (if msg_sender m = player1 (games s gameId) then choice
                   else player1Choice (games s gameId))
                  (if msg_sender m = player1 (games s gameId)
                   then player2Choice (games s gameId) else choice),
              isCompleted := True, fundsDistributed := True \<rparr>) \<and>
        (result (games s' gameId) = Player1Wins \<or> result (games s' gameId) = Player2Wins \<or>
         result (games s' gameId) = Draw) \<and>
        (result (games s' gameId) = Player1Wins \<longrightarrow>
           credited s s' (player1 (games s gameId)) = 2 * stake (games s gameId) \<and>
           credited s s' (player2 (games s gameId)) = 0) \<and>
        (result (games s' gameId) = Player2Wins \<longrightarrow>
           credited s s' (player2 (games s gameId)) = 2 * stake (games s gameId) \<and>
           credited s s' (player1 (games s gameId)) = 0) \<and>
        (result (games s' gameId) = Draw \<longrightarrow>
           credited s s' (player1 (games s gameId)) = stake (games s gameId) \<and>
           credited s s' (player2 (games s gameId)) = stake (games s gameId)) \<and>
        (\<forall>x. x \<noteq> player1 (games s gameId) \<and> x \<noteq> player2 (games s gameId) \<longrightarrow>
           credited s s' x = 0)) \<and>
     (revealDeadline (games s gameId) > 0 \<and>
      block_timestamp b \<le> revealDeadline (games s gameId) \<and>
      choice \<noteq> NoneChoice \<and>
      (msg_sender m = player1 (games s gameId) \<or> msg_sender m = player2 (games s gameId)) \<and>
      commitHashOf K choice nonce (msg_sender m)
        = stored_commitment (games s gameId) (msg_sender m) \<and>
      \<not> has_revealed (games s gameId) (msg_sender m) \<and>
      \<not> fundsDistributed (games s gameId) \<and> pot_fits s (games s gameId) \<longrightarrow>
        (\<exists>s1. revealChoice K b m gameId choice nonce s = Inr s1))"
proof (intro conjI impI)
  let ?g = "games s gameId"
  let ?c1 = "if msg_sender m = player1 ?g then choice else player1Choice ?g"
  let ?c2 = "if msg_sender m = player1 ?g then player2Choice ?g else choice"
  let ?g1 = "reveal_written ?g (msg_sender m) choice"
  assume c: "revealChoice K b m gameId choice nonce s = Inr s'"
  note fr = second_reveal_frame[OF r c other]
  have ne: "player1 ?g \<noteq> player2 ?g" using fr by blast
  have gs: "games s' = (games s)(gameId := ?g1
      \<lparr> result := winner_of ?c1 ?c2, isCompleted := True, fundsDistributed := True \<rparr>)"
    using fr by blast
  have nn: "?c1 \<noteq> NoneChoice" "?c2 \<noteq> NoneChoice" using fr by auto
  have res: "result (games s' gameId) = winner_of ?c1 ?c2" by (simp add: gs)
  have d: "determineWinner gameId (set_game gameId ?g1 s) = Inr s'" using fr by blast
  have bet: "betAmount (games (set_game gameId ?g1 s) gameId) \<le> MAX_BET_AMOUNT"
    using contract_ok_game[OF reachable_ok[OF r], of gameId] by (simp add: game_ok_def)
  have pc: "player1Choice ?g1 = ?c1" "player2Choice ?g1 = ?c2"
    by (simp_all add: reveal_written_def)
  have cw: "\<And>x. credited s s' x =
     (if x = player1 ?g then
        (if winner_of ?c1 ?c2 = Draw then stake ?g
         else if winner_of ?c1 ?c2 = Player1Wins then 2 * stake ?g else 0)
      else 0) +
     (if x = player2 ?g then
        (if winner_of ?c1 ?c2 = Draw then stake ?g
         else if winner_of ?c1 ?c2 = Player2Wins then 2 * stake ?g else 0)
      else 0)"
  proof -
    fix x
    have "credited s s' x = credited (set_game gameId ?g1 s) s' x" using fr by blast
    also have "\<dots> = (if x = player1 ?g then
        (if winner_of ?c1 ?c2 = Draw then stake ?g
         else if winner_of ?c1 ?c2 = Player1Wins then 2 * stake ?g else 0)
      else 0) +
     (if x = player2 ?g then
        (if winner_of ?c1 ?c2 = Draw then stake ?g
         else if winner_of ?c1 ?c2 = Player2Wins then 2 * stake ?g else 0)
      else 0)"
      using determineWinner_credited[OF d bet, of x]
      by (simp add: pc cong del: if_weak_cong)
    finally show "credited s s' x =
     (if x = player1 ?g then
        (if winner_of ?c1 ?c2 = Draw then stake ?g
         else if winner_of ?c1 ?c2 = Player1Wins then 2 * stake ?g else 0)
      else 0) +
     (if x = player2 ?g then
        (if winner_of ?c1 ?c2 = Draw then stake ?g
         else if winner_of ?c1 ?c2 = Player2Wins then 2 * stake ?g else 0)
      else 0)" .
  qed
  show "player1Revealed (games s' gameId)" "player2Revealed (games s' gameId)"
    using other fr by (auto simp: gs reveal_written_def other_revealed_def)
  show "player1 (games s' gameId) = player1 ?g" "player2 (games s' gameId) = player2 ?g"
    "betAmount (games s' gameId) = betAmount ?g"
    by (simp_all add: gs)
  show "player1Choice (games s' gameId) = ?c1" "player2Choice (games s' gameId) = ?c2"
    by (simp_all add: gs reveal_written_def)
  show "result (games s' gameId) = spec_outcome ?c1 ?c2"
    using winner_of_spec[OF nn] by (simp only: res)
  show "games s' = (games s)(gameId := ?g1
      \<lparr> result := spec_outcome ?c1 ?c2, isCompleted := True, fundsDistributed := True \<rparr>)"
    using gs by (simp only: winner_of_spec[OF nn])
  show "result (games s' gameId) = Player1Wins \<or> result (games s' gameId) = Player2Wins \<or>
         result (games s' gameId) = Draw"
    using winner_of_cases[of ?c1 ?c2] by (auto simp only: res)
  show "\<forall>x. x \<noteq> player1 ?g \<and> x \<noteq> player2 ?g \<longrightarrow> credited s s' x = 0"
    by (simp add: cw)
  {
    assume "result (games s' gameId) = Player1Wins"
    then have w: "winner_of ?c1 ?c2 = Player1Wins" by (simp only: res)
    show "credited s s' (player1 ?g) = 2 * stake ?g" using ne by (simp only: cw w) simp
    show "credited s s' (player2 ?g) = 0" using ne by (simp only: cw w) simp
  }
  {
    assume "result (games s' gameId) = Player2Wins"
    then have w: "winner_of ?c1 ?c2 = Player2Wins" by (simp only: res)
    show "credited s s' (player2 ?g) = 2 * stake ?g" using ne by (simp only: cw w) simp
    show "credited s s' (player1 ?g) = 0" using ne by (simp only: cw w) simp
  }
  {
    assume "result (games s' gameId) = Draw"
    then have w: "winner_of ?c1 ?c2 = Draw" by (simp only: res)
    show "credited s s' (player1 ?g) = stake ?g" using ne by (simp only: cw w) simp
    show "credited s s' (player2 ?g) = stake ?g" using ne by (simp only: cw w) simp
  }
next
  let ?g = "games s gameId"
  assume a: "revealDeadline ?g > 0 \<and> block_timestamp b \<le> revealDeadline ?g \<and>
      choice \<noteq> NoneChoice \<and>
      (msg_sender m = player1 ?g \<or> msg_sender m = player2 ?g) \<and>
      commitHashOf K choice nonce (msg_sender m) = stored_commitment ?g (msg_sender m) \<and>
      \<not> has_revealed ?g (msg_sender m) \<and>
      \<not> fundsDistributed ?g \<and> pot_fits s ?g"
  have g: "game_ok ?g" using r by (intro contract_ok_game reachable_ok)
  have nz: "revealDeadline ?g \<noteq> 0" using a by auto
  note pl = game_ok_players[OF g nz]
  show "\<exists>s1. revealChoice K b m gameId choice nonce s = Inr s1"
    using a pl by (intro revealChoice_succeeds) simp_all
qed

text \<open>
  Bob reveals Scissors after Alice revealed Rock: the call succeeds, Alice's Rock stays
  recorded, the result is Player1Wins, Alice is credited both stakes and Bob nothing.
\<close>

theorem both_revealed_outcome_and_credits_witness:
  "\<not> isl (revealChoice toy_keccak (at_time 1700000050) (from_account bob 0) 1 Scissors 9
            st_revealed1) \<and>
   player1Choice (games st_revealed1 1) = Rock \<and>
   player1Choice (games (storage_after
      (revealChoice toy_keccak (at_time 1700000050) (from_account bob 0) 1 Scissors 9 st_revealed1)
      st_revealed1) 1) = Rock \<and>
   player2Choice (games (storage_after
      (revealChoice toy_keccak (at_time 1700000050) (from_account bob 0) 1 Scissors 9 st_revealed1)
      st_revealed1) 1) = Scissors \<and>
   result (games (storage_after
      (revealChoice toy_keccak (at_time 1700000050) (from_account bob 0) 1 Scissors 9 st_revealed1)
      st_revealed1) 1) = Player1Wins \<and>
   spec_outcome Rock Scissors = Player1Wins \<and>
   credited st_revealed1 (storage_after
      (revealChoice toy_keccak (at_time 1700000050) (from_account bob 0) 1 Scissors 9 st_revealed1)
      st_revealed1) alice = 200000000000000000 \<and>
   credited st_revealed1 (storage_after
      (revealChoice toy_keccak (at_time 1700000050) (from_account bob 0) 1 Scissors 9 st_revealed1)
      st_revealed1) bob = 0"
proof -
  have other: "other_revealed (games st_revealed1 1) (msg_sender (from_account bob 0))"
    by (simp add: st_revealed1_game other_revealed_def alice_def bob_def)
  have pre: "revealDeadline (games st_revealed1 1) > 0 \<and>
      block_timestamp (at_time 1700000050) \<le> revealDeadline (games st_revealed1 1) \<and>
      Scissors \<noteq> NoneChoice \<and>
      (msg_sender (from_account bob 0) = player1 (games st_revealed1 1) \<or>
       msg_sender (from_account bob 0) = player2 (games st_revealed1 1)) \<and>
      commitHashOf toy_keccak Scissors 9 (msg_sender (from_account bob 0))
        = stored_commitment (games st_revealed1 1) (msg_sender (from_account bob 0)) \<and>
      \<not> has_revealed (games st_revealed1 1) (msg_sender (from_account bob 0)) \<and>
      \<not> fundsDistributed (games st_revealed1 1) \<and>
      pot_fits st_revealed1 (games st_revealed1 1)"
    by (simp add: st_revealed1_game st_revealed1_balances at_time_def stored_commitment_def
          has_revealed_def pot_fits_def toy_keccak_def alice_def bob_def bet_def)
  from both_revealed_outcome_and_credits[OF st_revealed1_reachable other,
      where b = "at_time 1700000050" and choice = Scissors and nonce = 9] pre
  obtain s1 where ok: "revealChoice toy_keccak (at_time 1700000050) (from_account bob 0) 1
      Scissors 9 st_revealed1 = Inr s1"
    by blast
  from both_revealed_outcome_and_credits[OF st_revealed1_reachable other,
      where b = "at_time 1700000050" and choice = Scissors and nonce = 9 and s' = s1] ok
  show ?thesis
    by (auto simp: storage_after_def st_revealed1_game stake_def bet_def spec_outcome_def
          alice_def bob_def)
qed

lemma reveal_resolution_conserves:
  assumes r: "reachable K s"
    and c: "revealChoice K b m gameId choice nonce s = Inr s'"
    and both: "player1Revealed (games s' gameId)" "player2Revealed (games s' gameId)"
  shows "credited s s' (player1 (games s gameId)) + credited s s' (player2 (games s gameId))
              = 2 * stake (games s gameId) \<and>
         (\<forall>x. x \<noteq> player1 (games s gameId) \<and> x \<noteq> player2 (games s gameId) \<longrightarrow>
               credited s s' x = 0)"
proof -
  from revealChoice_resolution[OF r c both]
  obtain c1 c2 where
    ne: "player1 (games s gameId) \<noteq> player2 (games s gameId)"
    and cr: "\<And>x. credited s s' x =
        (if x = player1 (games s gameId) then
           (if winner_of c1 c2 = Draw then stake (games s gameId)
            else if winner_of c1 c2 = Player1Wins then 2 * stake (games s gameId) else 0)
         else 0) +
        (if x = player2 (games s gameId) then
           (if winner_of c1 c2 = Draw then stake (games s gameId)
            else if winner_of c1 c2 = Player2Wins then 2 * stake (games s gameId) else 0)
         else 0)"
    by blast
  have "credited s s' (player1 (games s gameId)) + credited s s' (player2 (games s gameId))
              = 2 * stake (games s gameId)"
    using ne winner_of_cases[of c1 c2] by (auto simp: cr)
  moreover have "\<forall>x. x \<noteq> player1 (games s gameId) \<and> x \<noteq> player2 (games s gameId) \<longrightarrow>
               credited s s' x = 0"
    by (simp add: cr)
  ultimately show ?thesis by blast
qed

lemma sweep_conserves:
  assumes r: "reachable K s"
    and c: "handleExpiredGame b gameId s = Inr s'"
  shows "credited s s' (player1 (games s gameId)) + credited s s' (player2 (games s gameId))
              = 2 * stake (games s gameId) \<and>
         (\<forall>x. x \<noteq> player1 (games s gameId) \<and> x \<noteq> player2 (games s gameId) \<longrightarrow>
               credited s s' x = 0)"
proof -
  have g: "game_ok (games s gameId)" using r by (intro contract_ok_game reachable_ok)
  have nz: "revealDeadline (games s gameId) \<noteq> 0"
    using c by (auto simp: handleExpiredGame_def Let_def split: if_splits)
  note pl = game_ok_players[OF g nz]
  have bet: "betAmount (games s gameId) \<le> MAX_BET_AMOUNT" using pl by simp
  have ne: "player1 (games s gameId) \<noteq> player2 (games s gameId)" using pl by simp
  note cr = handleExpiredGame_credited[OF c bet]
  have "credited s s' (player1 (games s gameId)) + credited s s' (player2 (games s gameId))
              = 2 * stake (games s gameId)"
    using ne by (simp add: cr)
  moreover have "\<forall>x. x \<noteq> player1 (games s gameId) \<and> x \<noteq> player2 (games s gameId) \<longrightarrow>
               credited s s' x = 0"
    by (simp add: cr)
  ultimately show ?thesis by blast
qed

text \<open>
  Claim C3. In reachable storage, every resolution credits the two players exactly twice
  the stake in total and credits nobody else: the resolution run by the second reveal
  (win or draw), and the resolution run by \<open>handleExpiredGame\<close> (forfeiture or mutual
  silence). Both resolutions do happen: the sweep succeeds on every game whose reveal
  deadline has passed and which is not completed, and the second reveal succeeds when
  the hash matches in the open reveal phase (the pot fitting the balances), each with
  these credits and leaving the game completed and paid.
\<close>

theorem resolution_conserves_pot:
  assumes r: "reachable K s"
  shows "(revealChoice K b m gameId choice nonce s = Inr s' \<and>
          player1Revealed (games s' gameId) \<and> player2Revealed (games s' gameId) \<longrightarrow>
            credited s s' (player1 (games s gameId)) + credited s s' (player2 (games s gameId))
              = 2 * stake (games s gameId) \<and>
            (\<forall>x. x \<noteq> player1 (games s gameId) \<and> x \<noteq> player2 (games s gameId) \<longrightarrow>
               credited s s' x = 0)) \<and>
         (handleExpiredGame b' gameId s = Inr s'' \<longrightarrow>
            credited s s'' (player1 (games s gameId)) + credited s s'' (player2 (games s gameId))
              = 2 * stake (games s gameId) \<and>
            (\<forall>x. x \<noteq> player1 (games s gameId) \<and> x \<noteq> player2 (games s gameId) \<longrightarrow>
               credited s s'' x = 0)) \<and>
         (revealDeadline (games s gameId) > 0 \<and>
          block_timestamp b' > revealDeadline (games s gameId) \<and>
          \<not> isCompleted (games s gameId) \<and> pot_fits s (games s gameId) \<longrightarrow>
            (\<exists>s1. handleExpiredGame b' gameId s = Inr s1 \<and>
               isCompleted (games s1 gameId) \<and> fundsDistributed (games s1 gameId) \<and>
               credited s s1 (player1 (games s gameId)) + credited s s1 (player2 (games s gameId))
                 = 2 * stake (games s gameId) \<and>
               (\<forall>x. x \<noteq> player1 (games s gameId) \<and> x \<noteq> player2 (games s gameId) \<longrightarrow>
                  credited s s1 x = 0))) \<and>
         (revealDeadline (games s gameId) > 0 \<and>
          block_timestamp b \<le> revealDeadline (games s gameId) \<and>
          choice \<noteq> NoneChoice \<and>
          (msg_sender m = player1 (games s gameId) \<or> msg_sender m = player2 (games s gameId)) \<and>
          commitHashOf K choice nonce (msg_sender m)
            = stored_commitment (games s gameId) (msg_sender m) \<and>
          \<not> has_revealed (games s gameId) (msg_sender m) \<and>
          other_revealed (games s gameId) (msg_sender m) \<and>
          \<not> fundsDistributed (games s gameId) \<and> pot_fits s (games s gameId) \<longrightarrow>
            (\<exists>s1. revealChoice K b m gameId choice nonce s = Inr s1 \<and>
               player1Revealed (games s1 gameId) \<and> player2Revealed (games s1 gameId) \<and>
               isCompleted (games s1 gameId) \<and> fundsDistributed (games s1 gameId) \<and>
               credited s s1 (player1 (games s gameId)) + credited s s1 (player2 (games s gameId))
                 = 2 * stake (games s gameId) \<and>
               (\<forall>x. x \<noteq> player1 (games s gameId) \<and> x \<noteq> player2 (games s gameId) \<longrightarrow>
                  credited s s1 x = 0)))"
proof -
  let ?g = "games s gameId"
  have g: "game_ok ?g" using r by (intro contract_ok_game reachable_ok)
  have A: "revealChoice K b m gameId choice nonce s = Inr s' \<and>
          player1Revealed (games s' gameId) \<and> player2Revealed (games s' gameId) \<longrightarrow>
            credited s s' (player1 ?g) + credited s s' (player2 ?g) = 2 * stake ?g \<and>
            (\<forall>x. x \<noteq> player1 ?g \<and> x \<noteq> player2 ?g \<longrightarrow> credited s s' x = 0)"
    using reveal_resolution_conserves[OF r] by blast
  have B: "handleExpiredGame b' gameId s = Inr s'' \<longrightarrow>
            credited s s'' (player1 ?g) + credited s s'' (player2 ?g) = 2 * stake ?g \<and>
            (\<forall>x. x \<noteq> player1 ?g \<and> x \<noteq> player2 ?g \<longrightarrow> credited s s'' x = 0)"
    using sweep_conserves[OF r] by blast
  have C: "revealDeadline ?g > 0 \<and> block_timestamp b' > revealDeadline ?g \<and>
          \<not> isCompleted ?g \<and> pot_fits s ?g \<longrightarrow>
            (\<exists>s1. handleExpiredGame b' gameId s = Inr s1 \<and>
               isCompleted (games s1 gameId) \<and> fundsDistributed (games s1 gameId) \<and>
               credited s s1 (player1 ?g) + credited s s1 (player2 ?g) = 2 * stake ?g \<and>
               (\<forall>x. x \<noteq> player1 ?g \<and> x \<noteq> player2 ?g \<longrightarrow> credited s s1 x = 0))"
  proof
    assume a: "revealDeadline ?g > 0 \<and> block_timestamp b' > revealDeadline ?g \<and>
          \<not> isCompleted ?g \<and> pot_fits s ?g"
    then have nz: "revealDeadline ?g \<noteq> 0" by auto
    note pl = game_ok_players[OF g nz]
    have "\<exists>s1. handleExpiredGame b' gameId s = Inr s1"
      using a pl by (intro handleExpiredGame_succeeds) simp_all
    then obtain s1 where ok: "handleExpiredGame b' gameId s = Inr s1" by blast
    show "\<exists>s1. handleExpiredGame b' gameId s = Inr s1 \<and>
               isCompleted (games s1 gameId) \<and> fundsDistributed (games s1 gameId) \<and>
               credited s s1 (player1 ?g) + credited s s1 (player2 ?g) = 2 * stake ?g \<and>
               (\<forall>x. x \<noteq> player1 ?g \<and> x \<noteq> player2 ?g \<longrightarrow> credited s s1 x = 0)"
      using ok handleExpiredGame_result[OF ok] sweep_conserves[OF r ok] by blast
  qed
  have D: "revealDeadline ?g > 0 \<and> block_timestamp b \<le> revealDeadline ?g \<and>
          choice \<noteq> NoneChoice \<and>
          (msg_sender m = player1 ?g \<or> msg_sender m = player2 ?g) \<and>
          commitHashOf K choice nonce (msg_sender m) = stored_commitment ?g (msg_sender m) \<and>
          \<not> has_revealed ?g (msg_sender m) \<and> other_revealed ?g (msg_sender m) \<and>
          \<not> fundsDistributed ?g \<and> pot_fits s ?g \<longrightarrow>
            (\<exists>s1. revealChoice K b m gameId choice nonce s = Inr s1 \<and>
               player1Revealed (games s1 gameId) \<and> player2Revealed (games s1 gameId) \<and>
               isCompleted (games s1 gameId) \<and> fundsDistributed (games s1 gameId) \<and>
               credited s s1 (player1 ?g) + credited s s1 (player2 ?g) = 2 * stake ?g \<and>
               (\<forall>x. x \<noteq> player1 ?g \<and> x \<noteq> player2 ?g \<longrightarrow> credited s s1 x = 0))"
  proof
    assume a: "revealDeadline ?g > 0 \<and> block_timestamp b \<le> revealDeadline ?g \<and>
          choice \<noteq> NoneChoice \<and>
          (msg_sender m = player1 ?g \<or> msg_sender m = player2 ?g) \<and>
          commitHashOf K choice nonce (msg_sender m) = stored_commitment ?g (msg_sender m) \<and>
          \<not> has_revealed ?g (msg_sender m) \<and> other_revealed ?g (msg_sender m) \<and>
          \<not> fundsDistributed ?g \<and> pot_fits s ?g"
    then have nz: "revealDeadline ?g \<noteq> 0" by auto
    note pl = game_ok_players[OF g nz]
    have "\<exists>s1. revealChoice K b m gameId choice nonce s = Inr s1"
      using a pl by (intro revealChoice_succeeds) simp_all
    then obtain s1 where ok: "revealChoice K b m gameId choice nonce s = Inr s1" by blast
    have oth: "other_revealed ?g (msg_sender m)" using a by blast
    note fr = second_reveal_frame[OF r ok oth]
    have gs: "games s1 gameId = (reveal_written ?g (msg_sender m) choice)
         \<lparr> result := winner_of
              (if msg_sender m = player1 ?g then choice else player1Choice ?g)
              (if msg_sender m = player1 ?g then player2Choice ?g else choice),
           isCompleted := True, fundsDistributed := True \<rparr>"
      using fr by simp
    have both: "player1Revealed (games s1 gameId)" "player2Revealed (games s1 gameId)"
      using oth fr by (auto simp: gs reveal_written_def other_revealed_def)
    have fl: "isCompleted (games s1 gameId) \<and> fundsDistributed (games s1 gameId)"
      by (simp add: gs)
    show "\<exists>s1. revealChoice K b m gameId choice nonce s = Inr s1 \<and>
               player1Revealed (games s1 gameId) \<and> player2Revealed (games s1 gameId) \<and>
               isCompleted (games s1 gameId) \<and> fundsDistributed (games s1 gameId) \<and>
               credited s s1 (player1 ?g) + credited s s1 (player2 ?g) = 2 * stake ?g \<and>
               (\<forall>x. x \<noteq> player1 ?g \<and> x \<noteq> player2 ?g \<longrightarrow> credited s s1 x = 0)"
      using ok both fl reveal_resolution_conserves[OF r ok both] by blast
  qed
  show ?thesis using A B C D by blast
qed

lemma st_committed_balances: "playerBalances st_committed = (\<lambda>_. 0)"
  by (simp add: st_committed_def eval_defs)

text \<open>
  The three resolutions on the concrete game: Bob's second reveal; the sweep after only
  Alice revealed; the sweep after neither revealed. Each succeeds and credits Alice and
  Bob 0.2 ether in total.
\<close>

theorem resolution_conserves_pot_witness:
  "\<not> isl (revealChoice toy_keccak (at_time 1700000050) (from_account bob 0) 1 Scissors 9
            st_revealed1) \<and>
   credited st_revealed1 (storage_after
      (revealChoice toy_keccak (at_time 1700000050) (from_account bob 0) 1 Scissors 9 st_revealed1)
      st_revealed1) alice +
   credited st_revealed1 (storage_after
      (revealChoice toy_keccak (at_time 1700000050) (from_account bob 0) 1 Scissors 9 st_revealed1)
      st_revealed1) bob = 2 * 100000000000000000 \<and>
   credited st_revealed1 (storage_after
      (revealChoice toy_keccak (at_time 1700000050) (from_account bob 0) 1 Scissors 9 st_revealed1)
      st_revealed1) carol = 0 \<and>
   \<not> isl (handleExpiredGame (at_time 1700000331) 1 st_revealed1) \<and>
   credited st_revealed1
     (storage_after (handleExpiredGame (at_time 1700000331) 1 st_revealed1) st_revealed1) alice +
   credited st_revealed1
     (storage_after (handleExpiredGame (at_time 1700000331) 1 st_revealed1) st_revealed1) bob
     = 2 * 100000000000000000 \<and>
   \<not> player1Revealed (games st_committed 1) \<and> \<not> player2Revealed (games st_committed 1) \<and>
   \<not> isl (handleExpiredGame (at_time 1700000331) 1 st_committed) \<and>
   credited st_committed
     (storage_after (handleExpiredGame (at_time 1700000331) 1 st_committed) st_committed) alice +
   credited st_committed
     (storage_after (handleExpiredGame (at_time 1700000331) 1 st_committed) st_committed) bob
     = 2 * 100000000000000000"
proof -
  have pre1: "revealDeadline (games st_revealed1 1) > 0 \<and>
      block_timestamp (at_time 1700000050) \<le> revealDeadline (games st_revealed1 1) \<and>
      Scissors \<noteq> NoneChoice \<and>
      (msg_sender (from_account bob 0) = player1 (games st_revealed1 1) \<or>
       msg_sender (from_account bob 0) = player2 (games st_revealed1 1)) \<and>
      commitHashOf toy_keccak Scissors 9 (msg_sender (from_account bob 0))
        = stored_commitment (games st_revealed1 1) (msg_sender (from_account bob 0)) \<and>
      \<not> has_revealed (games st_revealed1 1) (msg_sender (from_account bob 0)) \<and>
      other_revealed (games st_revealed1 1) (msg_sender (from_account bob 0)) \<and>
      \<not> fundsDistributed (games st_revealed1 1) \<and>
      pot_fits st_revealed1 (games st_revealed1 1)"
    by (simp add: st_revealed1_game st_revealed1_balances at_time_def stored_commitment_def
          has_revealed_def other_revealed_def pot_fits_def toy_keccak_def alice_def bob_def bet_def)
  have pre2: "revealDeadline (games st_revealed1 1) > 0 \<and>
      block_timestamp (at_time 1700000331) > revealDeadline (games st_revealed1 1) \<and>
      \<not> isCompleted (games st_revealed1 1) \<and> pot_fits st_revealed1 (games st_revealed1 1)"
    by (simp add: st_revealed1_game st_revealed1_balances at_time_def pot_fits_def bet_def)
  have pre3: "revealDeadline (games st_committed 1) > 0 \<and>
      block_timestamp (at_time 1700000331) > revealDeadline (games st_committed 1) \<and>
      \<not> isCompleted (games st_committed 1) \<and> pot_fits st_committed (games st_committed 1)"
    by (simp add: st_committed_game st_committed_balances at_time_def pot_fits_def bet_def)
  have silent: "\<not> player1Revealed (games st_committed 1) \<and>
      \<not> player2Revealed (games st_committed 1)"
    by (simp add: st_committed_game)
  have who: "player1 (games st_revealed1 1) = alice" "player2 (games st_revealed1 1) = bob"
    "player1 (games st_committed 1) = alice" "player2 (games st_committed 1) = bob"
    "stake (games st_revealed1 1) = 100000000000000000"
    "stake (games st_committed 1) = 100000000000000000"
    "carol \<noteq> alice" "carol \<noteq> bob"
    by (simp_all add: st_revealed1_game st_committed_game stake_def bet_def alice_def bob_def
          carol_def)
  note T1 = resolution_conserves_pot[OF st_revealed1_reachable,
      where b = "at_time 1700000050" and m = "from_account bob 0" and gameId = 1
        and choice = Scissors and nonce = 9 and s' = st_revealed1 and s'' = st_revealed1
        and b' = "at_time 1700000331"]
  note T3 = resolution_conserves_pot[OF st_committed_reachable,
      where b = "at_time 1700000050" and m = "from_account bob 0" and gameId = 1
        and choice = Scissors and nonce = 9 and s' = st_committed and s'' = st_committed
        and b' = "at_time 1700000331"]
  from T1 pre1 have "\<exists>s1. revealChoice toy_keccak (at_time 1700000050) (from_account bob 0) 1
        Scissors 9 st_revealed1 = Inr s1 \<and>
      credited st_revealed1 s1 (player1 (games st_revealed1 1)) +
      credited st_revealed1 s1 (player2 (games st_revealed1 1))
        = 2 * stake (games st_revealed1 1) \<and>
      (\<forall>x. x \<noteq> player1 (games st_revealed1 1) \<and> x \<noteq> player2 (games st_revealed1 1) \<longrightarrow>
         credited st_revealed1 s1 x = 0)"
    by blast
  then obtain s1 where r1: "revealChoice toy_keccak (at_time 1700000050) (from_account bob 0) 1
      Scissors 9 st_revealed1 = Inr s1"
    and c1: "credited st_revealed1 s1 alice + credited st_revealed1 s1 bob
             = 2 * 100000000000000000"
      "credited st_revealed1 s1 carol = 0"
    unfolding who using who(7,8) by auto
  from T1 pre2 have "\<exists>s2. handleExpiredGame (at_time 1700000331) 1 st_revealed1 = Inr s2 \<and>
      credited st_revealed1 s2 (player1 (games st_revealed1 1)) +
      credited st_revealed1 s2 (player2 (games st_revealed1 1))
        = 2 * stake (games st_revealed1 1)"
    by blast
  then obtain s2 where r2: "handleExpiredGame (at_time 1700000331) 1 st_revealed1 = Inr s2"
    and c2: "credited st_revealed1 s2 alice + credited st_revealed1 s2 bob
             = 2 * 100000000000000000"
    unfolding who by auto
  from T3 pre3 have "\<exists>s3. handleExpiredGame (at_time 1700000331) 1 st_committed = Inr s3 \<and>
      credited st_committed s3 (player1 (games st_committed 1)) +
      credited st_committed s3 (player2 (games st_committed 1))
        = 2 * stake (games st_committed 1)"
    by blast
  then obtain s3 where r3: "handleExpiredGame (at_time 1700000331) 1 st_committed = Inr s3"
    and c3: "credited st_committed s3 alice + credited st_committed s3 bob
             = 2 * 100000000000000000"
    unfolding who by auto
  show ?thesis
    using c1 c2 c3 silent by (simp add: r1 r2 r3 storage_after_def)
qed

section \<open>The sweep and the commit phase\<close>

lemma st_committed1_reachable: "reachable toy_keccak st_committed1"
  unfolding st_committed1_def
  by (rule reachable_after_txs) (simp_all add: eval_defs)

lemma st_committed1_game:
  "games st_committed1 1 = \<lparr> player1 = alice, player2 = bob, player1CommitHash = 10485790,
     player2CommitHash = 0, player1Choice = NoneChoice, player2Choice = NoneChoice,
     betAmount = bet, commitDeadline = 1700000310, revealDeadline = 0,
     result = Pending, player1Revealed = False, player2Revealed = False, isCompleted = False,
     fundsDistributed = False, randomSeed = 0 \<rparr>"
  by (simp add: st_committed1_def eval_defs)

text \<open>
  Claim C2 as stated fails: Alice and Bob have both joined and deposited, only Alice
  committed, and the commit deadline is long past; \<open>handleExpiredGame\<close> reverts with
  \<open>Game not expired\<close>.
\<close>

theorem handleExpiredGame_commit_phase_counterexample:
  "player1 (games st_committed1 1) = alice \<and> player2 (games st_committed1 1) = bob \<and>
   betAmount (games st_committed1 1) = bet \<and>
   commitDeadline (games st_committed1 1) < block_timestamp (at_time 1700001000) \<and>
   player2CommitHash (games st_committed1 1) = 0 \<and>
   \<not> isCompleted (games st_committed1 1) \<and>
   handleExpiredGame (at_time 1700001000) 1 st_committed1 = Inl (Revert ''Game not expired'')"
  by (simp add: st_committed1_game at_time_def handleExpiredGame_def Let_def)

lemma game_ok_no_reveal_phase:
  "game_ok g \<Longrightarrow> player1CommitHash g = 0 \<or> player2CommitHash g = 0 \<Longrightarrow> revealDeadline g = 0"
  by (auto simp: game_ok_def)

text \<open>
  Claim C2, amended. In reachable storage, for a game in which a commitment is absent,
  \<open>handleExpiredGame\<close> fails with \<open>Game not expired\<close> at every time and changes
  nothing: the sweep requires \<open>revealDeadline\<close> to be set, which happens only when both
  commitments are present, so it is a path into resolution from the reveal phase only.
  Once such a game has two players and its commit deadline has passed, \<open>joinGame\<close>,
  \<open>commitChoice\<close>, \<open>revealChoice\<close> and \<open>cancelGame\<close> on it fail as well, for every
  caller.
\<close>

theorem handleExpiredGame_needs_both_commitments:
  assumes r: "reachable K s"
    and absent: "player1CommitHash (games s gameId) = 0 \<or> player2CommitHash (games s gameId) = 0"
  shows "handleExpiredGame b gameId s = Inl (Revert ''Game not expired'') \<and>
     storage_after (handleExpiredGame b gameId s) s = s \<and>
     (player2 (games s gameId) \<noteq> 0 \<and> commitDeadline (games s gameId) < block_timestamp b \<longrightarrow>
        joinGame b m gameId s \<in> {Inl ReentrancyGuardReentrantCall,
                                 Inl (Revert ''Game already has two players'')} \<and>
        commitChoice K b m gameId h s = Inl (Revert ''Commit phase expired'') \<and>
        revealChoice K b m gameId choice nonce s = Inl (Revert ''Reveal phase not started'') \<and>
        cancelGame b m gameId s \<in> {Inl (Revert ''Only game creator can cancel''),
                                   Inl (Revert ''Cannot cancel game with two players'')})"
proof -
  let ?g = "games s gameId"
  have g: "game_ok ?g" using r by (intro contract_ok_game reachable_ok)
  have rd: "revealDeadline ?g = 0" using g absent by (rule game_ok_no_reveal_phase)
  have sweep: "handleExpiredGame b gameId s = Inl (Revert ''Game not expired'')"
    using rd by (simp add: handleExpiredGame_def Let_def)
  then have same: "storage_after (handleExpiredGame b gameId s) s = s"
    by (simp add: storage_after_def)
  have stuck: "player2 ?g \<noteq> 0 \<and> commitDeadline ?g < block_timestamp b \<longrightarrow>
        joinGame b m gameId s \<in> {Inl ReentrancyGuardReentrantCall,
                                 Inl (Revert ''Game already has two players'')} \<and>
        commitChoice K b m gameId h s = Inl (Revert ''Commit phase expired'') \<and>
        revealChoice K b m gameId choice nonce s = Inl (Revert ''Reveal phase not started'') \<and>
        cancelGame b m gameId s \<in> {Inl (Revert ''Only game creator can cancel''),
                                   Inl (Revert ''Cannot cancel game with two players'')}"
  proof (intro impI)
    assume a: "player2 ?g \<noteq> 0 \<and> commitDeadline ?g < block_timestamp b"
    then have p1: "player1 ?g \<noteq> 0" using g by (auto simp: game_ok_def)
    have j: "joinGame b m gameId s \<in> {Inl ReentrancyGuardReentrantCall,
                                 Inl (Revert ''Game already has two players'')}"
      using a p1 by (simp add: joinGame_def nonReentrant_def Let_def)
    have c: "commitChoice K b m gameId h s = Inl (Revert ''Commit phase expired'')"
      using a p1 by (simp add: commitChoice_def Let_def not_le)
    have rv: "revealChoice K b m gameId choice nonce s = Inl (Revert ''Reveal phase not started'')"
      using rd by (simp add: revealChoice_def Let_def)
    have cn: "cancelGame b m gameId s \<in> {Inl (Revert ''Only game creator can cancel''),
                                   Inl (Revert ''Cannot cancel game with two players'')}"
      using a by (simp add: cancelGame_def Let_def)
    show "joinGame b m gameId s \<in> {Inl ReentrancyGuardReentrantCall,
                                 Inl (Revert ''Game already has two players'')} \<and>
        commitChoice K b m gameId h s = Inl (Revert ''Commit phase expired'') \<and>
        revealChoice K b m gameId choice nonce s = Inl (Revert ''Reveal phase not started'') \<and>
        cancelGame b m gameId s \<in> {Inl (Revert ''Only game creator can cancel''),
                                   Inl (Revert ''Cannot cancel game with two players'')}"
      using j c rv cn by blast
  qed
  show ?thesis using sweep same stuck by blast
qed

text \<open>
  The game in which only Alice committed, well after the commit deadline: the sweep, a
  late commitment by Bob and a cancellation by Alice all revert.
\<close>

theorem handleExpiredGame_needs_both_commitments_witness:
  "player2CommitHash (games st_committed1 1) = 0 \<and>
   handleExpiredGame (at_time 1700001000) 1 st_committed1 = Inl (Revert ''Game not expired'') \<and>
   commitChoice toy_keccak (at_time 1700001000) (from_account bob 0) 1 11534376 st_committed1
     = Inl (Revert ''Commit phase expired'') \<and>
   cancelGame (at_time 1700001000) (from_account alice 0) 1 st_committed1
     = Inl (Revert ''Cannot cancel game with two players'')"
proof -
  have absent: "player1CommitHash (games st_committed1 1) = 0
                \<or> player2CommitHash (games st_committed1 1) = 0"
    by (simp add: st_committed1_game)
  have late: "player2 (games st_committed1 1) \<noteq> 0 \<and>
      commitDeadline (games st_committed1 1) < block_timestamp (at_time 1700001000)"
    by (simp add: st_committed1_game at_time_def bob_def)
  from handleExpiredGame_needs_both_commitments[OF st_committed1_reachable absent,
      of "at_time 1700001000" "from_account alice 0" 11534376 Rock 7]
    handleExpiredGame_needs_both_commitments[OF st_committed1_reachable absent,
      of "at_time 1700001000" "from_account bob 0" 11534376 Rock 7]
  show ?thesis
    using late
    by (simp add: st_committed1_game) (simp add: cancelGame_def Let_def st_committed1_game)
qed

section \<open>No second resolution\<close>

lemma grows_refl: "grows s s"
  by (simp add: grows_def)

lemma grows_trans: "grows s s' \<Longrightarrow> grows s' s'' \<Longrightarrow> grows s s''"
  by (simp add: grows_def)

lemma grows_upd:
  assumes "nextGameId s' = nextGameId s" and "games s' = (games s)(gameId := g')"
    and "games s gameId \<noteq> zero_game"
    and "isCompleted (games s gameId) \<longrightarrow> isCompleted g'"
    and "fundsDistributed (games s gameId) \<longrightarrow> fundsDistributed g'"
  shows "grows s s'"
  using assms by (simp add: grows_def)

lemma zero_game_sel [simp]:
  "player1 zero_game = 0" "revealDeadline zero_game = 0"
  "\<not> isCompleted zero_game" "\<not> fundsDistributed zero_game"
  by (simp_all add: zero_game_def)

lemma credit_nextGameId: "credit a v s = Inr s' \<Longrightarrow> nextGameId s' = nextGameId s"
  by (auto simp: credit_def split: sum.splits)

lemma nextGameId_set_game [simp]: "nextGameId (set_game gameId g s) = nextGameId s"
  by (simp add: set_game_def)

lemma joinGame_grows: "joinGame b m gameId s = Inr s' \<Longrightarrow> grows s s'"
  by (simp add: joinGame_def nonReentrant_def Let_def split: if_splits sum.splits)
     (auto simp: grows_def set_game_def)

lemma commitChoice_grows: "commitChoice K b m gameId h s = Inr s' \<Longrightarrow> grows s s'"
  by (simp add: commitChoice_def Let_def generateRandomSeed_def split: if_splits sum.splits)
     (auto simp: grows_def set_game_def)

lemma handleExpiredGame_grows:
  assumes c: "handleExpiredGame b gameId s = Inr s'"
  shows "grows s s'"
proof -
  have n: "nextGameId s' = nextGameId s"
    using c
    by (simp add: handleExpiredGame_def Let_def split: if_splits sum.splits)
       (auto dest!: credit_nextGameId)
  have nz: "games s gameId \<noteq> zero_game"
    using c by (auto simp: handleExpiredGame_def Let_def split: if_splits)
  from handleExpiredGame_games[OF c] obtain r where
    eq: "games s' = (games s)(gameId := (games s gameId)
        \<lparr> result := r, isCompleted := True, fundsDistributed := True \<rparr>)" by blast
  show ?thesis by (rule grows_upd[OF n eq nz]) simp_all
qed

lemma cancelGame_grows:
  assumes c: "cancelGame b m gameId s = Inr s'" and snd: "msg_sender m \<noteq> 0"
  shows "grows s s'"
proof -
  have n: "nextGameId s' = nextGameId s"
    using c
    by (simp add: cancelGame_def Let_def split: if_splits sum.splits)
       (auto dest!: credit_nextGameId)
  have nz: "games s gameId \<noteq> zero_game"
    using c snd by (auto simp: cancelGame_def Let_def split: if_splits)
  show ?thesis
    by (rule grows_upd[OF n cancelGame_games[OF c] nz]) simp_all
qed

lemma determineWinner_nextGameId:
  "determineWinner gameId s = Inr s' \<Longrightarrow> nextGameId s' = nextGameId s"
  by (simp add: determineWinner_def distributeFunds_def Let_def split: if_splits sum.splits)
     (auto dest!: credit_nextGameId)

lemma revealChoice_grows:
  assumes c: "revealChoice K b m gameId choice nonce s = Inr s'"
  shows "grows s s'"
proof -
  let ?g1 = "reveal_written (games s gameId) (msg_sender m) choice"
  have nz: "games s gameId \<noteq> zero_game"
    using revealChoice_Inr[OF c] by auto
  have fl: "isCompleted ?g1 = isCompleted (games s gameId)"
    "fundsDistributed ?g1 = fundsDistributed (games s gameId)"
    by (simp_all add: reveal_written_def)
  show ?thesis
  proof (cases "player1Revealed ?g1 \<and> player2Revealed ?g1")
    case True
    then have d: "determineWinner gameId (set_game gameId ?g1 s) = Inr s'"
      using revealChoice_effect[OF c] by simp
    have n: "nextGameId s' = nextGameId s" using determineWinner_nextGameId[OF d] by simp
    from determineWinner_games[OF d] have
      eq: "games s' = (games s)(gameId := ?g1
         \<lparr> result := winner_of (player1Choice ?g1) (player2Choice ?g1),
           isCompleted := True, fundsDistributed := True \<rparr>)"
      by simp
    show ?thesis by (rule grows_upd[OF n eq nz]) simp_all
  next
    case False
    then have s': "s' = set_game gameId ?g1 s"
      using revealChoice_effect[OF c] by (simp split: if_splits)
    have n: "nextGameId s' = nextGameId s" and eq: "games s' = (games s)(gameId := ?g1)"
      by (simp_all add: s')
    show ?thesis by (rule grows_upd[OF n eq nz]) (simp_all add: fl)
  qed
qed

lemma grows_cong:
  "games t = games s \<Longrightarrow> nextGameId t = nextGameId s \<Longrightarrow> grows s t"
  "games t = games s' \<Longrightarrow> nextGameId t = nextGameId s' \<Longrightarrow> grows s s' \<Longrightarrow> grows s t"
  by (simp_all add: grows_def)

lemma dispatch_entered_grows:
  assumes e: "entered s" and snd: "msg_sender m \<noteq> 0"
    and c: "dispatch K ext b m c s = Inr s'"
  shows "grows s s'"
proof (cases c)
  case CreateGame
  then show ?thesis using c e by (simp add: dispatch_def createGame_def nonReentrant_def)
next
  case (JoinGame g)
  then show ?thesis using c e by (simp add: dispatch_def joinGame_def nonReentrant_def)
next
  case (CommitChoice g h)
  then show ?thesis using c by (auto simp: dispatch_def dest: commitChoice_grows split: if_splits)
next
  case (RevealChoice g ch n)
  then show ?thesis using c by (auto simp: dispatch_def dest: revealChoice_grows split: if_splits)
next
  case (HandleExpiredGame g)
  then show ?thesis using c
    by (auto simp: dispatch_def dest: handleExpiredGame_grows split: if_splits)
next
  case WithdrawBalance
  then show ?thesis using c e by (auto simp: dispatch_def withdrawBalance_entered split: if_splits)
next
  case (CancelGame g)
  then show ?thesis using c snd
    by (auto simp: dispatch_def dest: cancelGame_grows split: if_splits)
qed

lemma reenter_grows:
  "entered s \<Longrightarrow> list_all (\<lambda>(m', c'). msg_sender m' \<noteq> 0) cs \<Longrightarrow> grows s (reenter K b cs s)"
proof (induction cs arbitrary: s)
  case Nil
  then show ?case by (simp add: grows_refl)
next
  case (Cons x cs)
  obtain m c where x: "x = (m, c)" by (cases x)
  have snd: "msg_sender m \<noteq> 0" using Cons.prems(2) x by simp
  let ?s1 = "case dispatch K no_callee b m c s of Inl e \<Rightarrow> s | Inr s' \<Rightarrow> s'"
  have e1: "entered ?s1"
    using Cons.prems(1) dispatch_entered[of s K no_callee b m c] by (auto split: sum.splits)
  have g1: "grows s ?s1"
    using dispatch_entered_grows[OF Cons.prems(1) snd, of K no_callee b c]
    by (auto simp: grows_refl split: sum.splits)
  have "grows ?s1 (reenter K b cs ?s1)"
    using Cons.IH[OF e1] Cons.prems(2) by simp
  then show ?case using g1 x by (auto intro: grows_trans)
qed

lemma createGame_table:
  assumes c: "createGame m s = Inr s'"
  shows "unat (nextGameId s) + 1 < 2 ^ 256 \<and> nextGameId s' = nextGameId s + 1 \<and>
     (\<exists>g. games s' = (games s)(nextGameId s := g))"
  using c
  by (auto simp: createGame_def nonReentrant_def Let_def set_game_def checked_add_def
        split: if_splits sum.splits)

lemma transact_table:
  assumes ok: "tx_ok t" and c: "transact K t s = Inr s'"
  shows "grows s s' \<or>
     (unat (nextGameId s) + 1 < 2 ^ 256 \<and> nextGameId s' = nextGameId s + 1 \<and>
      (\<exists>g. games s' = (games s)(nextGameId s := g)))"
proof -
  obtain b m cl sc where t: "t = (b, m, cl, sc)" by (cases t)
  have snd: "msg_sender m \<noteq> 0"
    and scs: "list_all (\<lambda>(m', c'). msg_sender m' \<noteq> 0) (fst sc)"
    using ok t by simp_all
  have d: "dispatch K (scripted K b sc) b m cl s = Inr s'" using c t by simp
  show ?thesis
  proof (cases cl)
    case CreateGame
    then show ?thesis using d createGame_table[of m s s'] by (simp add: dispatch_def)
  next
    case (JoinGame g)
    then show ?thesis using d by (auto simp: dispatch_def dest: joinGame_grows)
  next
    case (CommitChoice g h)
    then show ?thesis using d by (auto simp: dispatch_def dest: commitChoice_grows split: if_splits)
  next
    case (RevealChoice g ch n)
    then show ?thesis using d by (auto simp: dispatch_def dest: revealChoice_grows split: if_splits)
  next
    case (HandleExpiredGame g)
    then show ?thesis using d
      by (auto simp: dispatch_def dest: handleExpiredGame_grows split: if_splits)
  next
    case WithdrawBalance
    let ?s1 = "s\<lparr> entered := True, playerBalances := (playerBalances s)(msg_sender m := 0) \<rparr>"
    from WithdrawBalance d have
      s': "s' = (reenter K b (fst sc) ?s1)\<lparr> entered := False \<rparr>"
      by (auto simp: dispatch_def withdrawBalance_def nonReentrant_def Let_def scripted_def
            split: if_splits)
    have g1: "grows s ?s1" by (simp add: grows_def)
    have "grows ?s1 (reenter K b (fst sc) ?s1)"
      using scs by (intro reenter_grows) simp_all
    then have "grows s (reenter K b (fst sc) ?s1)"
      using g1 by (rule grows_trans[rotated])
    then have "grows s s'" by (simp add: s' grows_def)
    then show ?thesis by simp
  next
    case (CancelGame g)
    then show ?thesis using d snd
      by (auto simp: dispatch_def dest: cancelGame_grows split: if_splits)
  qed
qed

lemma word_succ_le:
  fixes n :: u256
  assumes "unat n + 1 < 2 ^ 256" and "n + 1 \<le> x"
  shows "n < x"
proof -
  have "unat (n + 1) = unat n + 1"
    using assms(1) by (simp add: unat_word_ariths)
  then show ?thesis using assms(2) by (simp add: word_le_nat_alt word_less_nat_alt)
qed

lemma transact_ids_fresh:
  assumes f: "ids_fresh s" and ok: "tx_ok t" and c: "transact K t s = Inr s'"
  shows "ids_fresh s'"
  using transact_table[OF ok c]
proof
  assume "grows s s'"
  then show ?thesis using f by (simp add: grows_def ids_fresh_def)
next
  assume a: "unat (nextGameId s) + 1 < 2 ^ 256 \<and> nextGameId s' = nextGameId s + 1 \<and>
      (\<exists>g. games s' = (games s)(nextGameId s := g))"
  then obtain g where gs: "games s' = (games s)(nextGameId s := g)" by blast
  show ?thesis
    unfolding ids_fresh_def
  proof (intro allI impI)
    fix gameId assume "nextGameId s' \<le> gameId"
    then have lt: "nextGameId s < gameId" using a by (auto intro: word_succ_le)
    then have "games s gameId = zero_game" using f by (simp add: ids_fresh_def)
    then show "games s' gameId = zero_game" using lt by (simp add: gs)
  qed
qed

lemma reachable_ids_fresh: "reachable K s \<Longrightarrow> ids_fresh s"
proof (induction rule: reachable.induct)
  case deployed
  then show ?case by (simp add: ids_fresh_def init_contract_def)
next
  case (transaction s t s')
  then show ?case by (auto intro: transact_ids_fresh)
qed

lemma resolved_stays_resolved:
  assumes r: "reachable K s" and ok: "tx_ok t" and c: "transact K t s = Inr s'"
  shows "(isCompleted (games s gameId) \<longrightarrow> isCompleted (games s' gameId)) \<and>
         (fundsDistributed (games s gameId) \<longrightarrow> fundsDistributed (games s' gameId))"
  using transact_table[OF ok c]
proof
  assume "grows s s'"
  then show ?thesis by (simp add: grows_def)
next
  assume a: "unat (nextGameId s) + 1 < 2 ^ 256 \<and> nextGameId s' = nextGameId s + 1 \<and>
      (\<exists>g. games s' = (games s)(nextGameId s := g))"
  then obtain g where gs: "games s' = (games s)(nextGameId s := g)" by blast
  have "games s (nextGameId s) = zero_game"
    using reachable_ids_fresh[OF r] by (simp add: ids_fresh_def)
  then show ?thesis by (cases "gameId = nextGameId s") (simp_all add: gs)
qed

text \<open>
  Claim C4 as stated fails in the error it names: the game was resolved by the second
  reveal, and a sweep attempted before the reveal deadline is refused as
  \<open>Game not expired\<close>, not as already completed.
\<close>

theorem handleExpiredGame_error_counterexample:
  "isCompleted (games st_resolved 1) \<and> fundsDistributed (games st_resolved 1) \<and>
   block_timestamp (at_time 1700000060) \<le> revealDeadline (games st_resolved 1) \<and>
   handleExpiredGame (at_time 1700000060) 1 st_resolved = Inl (Revert ''Game not expired'') \<and>
   handleExpiredGame (at_time 1700000060) 1 st_resolved \<noteq> Inl (Revert ''Game already completed'')"
  by (simp add: st_resolved_game at_time_def handleExpiredGame_def Let_def)

lemma revealChoice_after_distribution:
  assumes fd: "fundsDistributed (games s gameId)"
  shows "playerBalances (storage_after (revealChoice K b m gameId choice nonce s) s)
           = playerBalances s"
proof (cases "revealChoice K b m gameId choice nonce s")
  case (Inl e)
  then show ?thesis by (simp add: storage_after_def)
next
  case (Inr s')
  let ?g1 = "reveal_written (games s gameId) (msg_sender m) choice"
  have fd1: "fundsDistributed ?g1" using fd by (simp add: reveal_written_def)
  have "s' = set_game gameId ?g1 s"
  proof (cases "player1Revealed ?g1 \<and> player2Revealed ?g1")
    case True
    then have "determineWinner gameId (set_game gameId ?g1 s) = Inr s'"
      using revealChoice_effect[OF Inr] by simp
    from determineWinner_games[OF this] show ?thesis using fd1 by simp
  next
    case False
    then show ?thesis using revealChoice_effect[OF Inr] by (simp split: if_splits)
  qed
  then show ?thesis using Inr by (simp add: storage_after_def)
qed

text \<open>
  Claim C4, amended. Once a game is completed with its funds distributed (the state both
  resolution paths leave), \<open>handleExpiredGame\<close> on it fails, with
  \<open>Game already completed\<close> when the reveal deadline is set and has passed and with
  \<open>Game not expired\<close> otherwise, and no balance changes; no \<open>revealChoice\<close> on it
  changes a balance either. In reachable storage every further transaction leaves the
  game completed and paid, so this holds for every later call: there is no second
  payout.
\<close>

theorem no_second_resolution:
  assumes fin: "isCompleted (games s gameId)" and paid: "fundsDistributed (games s gameId)"
  shows "handleExpiredGame b gameId s =
           Inl (Revert (if revealDeadline (games s gameId) > 0 \<and>
                           block_timestamp b > revealDeadline (games s gameId)
                        then ''Game already completed'' else ''Game not expired'')) \<and>
         playerBalances (storage_after (handleExpiredGame b gameId s) s) = playerBalances s \<and>
         playerBalances (storage_after (revealChoice K b m gameId choice nonce s) s)
           = playerBalances s \<and>
         (reachable K s \<and> tx_ok t \<and> transact K t s = Inr s' \<longrightarrow>
            isCompleted (games s' gameId) \<and> fundsDistributed (games s' gameId))"
proof -
  have h: "handleExpiredGame b gameId s =
           Inl (Revert (if revealDeadline (games s gameId) > 0 \<and>
                           block_timestamp b > revealDeadline (games s gameId)
                        then ''Game already completed'' else ''Game not expired''))"
    using fin by (simp add: handleExpiredGame_def Let_def)
  then have "playerBalances (storage_after (handleExpiredGame b gameId s) s) = playerBalances s"
    by (simp add: storage_after_def)
  moreover have "reachable K s \<and> tx_ok t \<and> transact K t s = Inr s' \<longrightarrow>
            isCompleted (games s' gameId) \<and> fundsDistributed (games s' gameId)"
    using fin paid resolved_stays_resolved[of K s t s' gameId] by blast
  ultimately show ?thesis using h revealChoice_after_distribution[OF paid] by blast
qed

text \<open>
  The resolved game: a sweep after the reveal deadline, a sweep before it, and a repeated
  reveal by Bob leave every balance as it was.
\<close>

theorem no_second_resolution_witness:
  "handleExpiredGame (at_time 1700000331) 1 st_resolved = Inl (Revert ''Game already completed'') \<and>
   handleExpiredGame (at_time 1700000060) 1 st_resolved = Inl (Revert ''Game not expired'') \<and>
   playerBalances (storage_after (handleExpiredGame (at_time 1700000331) 1 st_resolved) st_resolved)
     = playerBalances st_resolved \<and>
   playerBalances
     (storage_after
        (revealChoice toy_keccak (at_time 1700000060) (from_account bob 0) 1 Scissors 9 st_resolved)
        st_resolved)
     = playerBalances st_resolved"
proof -
  have f: "isCompleted (games st_resolved 1)" "fundsDistributed (games st_resolved 1)"
    by (simp_all add: st_resolved_game)
  from no_second_resolution[OF f, of "at_time 1700000331" toy_keccak "from_account bob 0" Scissors 9]
    no_second_resolution[OF f, of "at_time 1700000060" toy_keccak "from_account bob 0" Scissors 9]
  show ?thesis by (simp add: st_resolved_game at_time_def storage_after_def)
qed

section \<open>Cancellation\<close>

lemma st_cancelled_late_game:
  "games st_cancelled_late 1 = \<lparr> player1 = alice, player2 = 0, player1CommitHash = 0,
     player2CommitHash = 0, player1Choice = NoneChoice, player2Choice = NoneChoice,
     betAmount = bet, commitDeadline = 0, revealDeadline = 0,
     result = Expired, player1Revealed = False, player2Revealed = False, isCompleted = True,
     fundsDistributed = False, randomSeed = 0 \<rparr>"
  by (simp add: st_cancelled_late_def eval_defs)

lemma st_cancelled_late_balances: "playerBalances st_cancelled_late = (\<lambda>_. 0)(alice := bet)"
  by (simp add: st_cancelled_late_def eval_defs)

lemma st_cancelled_late_entered: "\<not> entered st_cancelled_late"
  by (simp add: st_cancelled_late_def eval_defs)

lemma cancelGame_guards:
  assumes c: "cancelGame b m gameId s = Inr s'"
  shows "msg_sender m = player1 (games s gameId) \<and> player2 (games s gameId) = 0 \<and>
     unat (commitDeadline (games s gameId)) + 3600 < unat (block_timestamp b) \<and>
     credited s s' (player1 (games s gameId)) = stake (games s gameId) \<and>
     isCompleted (games s' gameId) \<and> result (games s' gameId) = Expired"
proof -
  from c obtain limit s1 where
    who: "msg_sender m = player1 (games s gameId)" "player2 (games s gameId) = 0"
    and lim: "checked_add (commitDeadline (games s gameId)) ONE_HOUR = Inr limit"
      "limit < block_timestamp b"
    and cr: "credit (player1 (games s gameId)) (betAmount (games s gameId)) s = Inr s1"
    and s': "s' = set_game gameId ((games s1 gameId)\<lparr> isCompleted := True, result := Expired \<rparr>) s1"
    by (auto simp: cancelGame_def Let_def split: if_splits sum.splits)
  have t: "unat (commitDeadline (games s gameId)) + 3600 < unat (block_timestamp b)"
    using checked_add_unat[OF lim(1)] lim(2) by (simp add: ONE_HOUR_def word_less_nat_alt)
  have "credited s s' (player1 (games s gameId)) = credited s s1 (player1 (games s gameId))"
    by (simp add: s' credited_def)
  then have cd: "credited s s' (player1 (games s gameId)) = stake (games s gameId)"
    by (simp add: credit_credited[OF cr] stake_def)
  show ?thesis using who t cd by (simp add: s')
qed

lemma cancelGame_wait_in_reachable:
  assumes r: "reachable K s" and p2: "player2 (games s gameId) = 0"
  shows "commitDeadline (games s gameId) = 0"
  using contract_ok_game[OF reachable_ok[OF r], of gameId] p2 by (simp add: game_ok_def)

lemma cancelGame_needs_no_wait:
  assumes r: "reachable K s"
    and who: "player1 (games s gameId) = msg_sender m"
    and p2: "player2 (games s gameId) = 0"
    and late: "3600 < block_timestamp b"
    and fits: "unat (playerBalances s (msg_sender m)) + unat (betAmount (games s gameId)) < 2 ^ 256"
  shows "\<exists>s'. cancelGame b m gameId s = Inr s'"
proof -
  have "commitDeadline (games s gameId) = 0"
    using r p2 by (rule cancelGame_wait_in_reachable)
  then show ?thesis
    using who p2 late fits
    by (simp add: cancelGame_def Let_def checked_add_def ONE_HOUR_def credit_def)
qed

text \<open>
  Claim C1 fails on the code. The game Alice created and, two hours later, cancelled is
  completed, with no second player. A second \<open>cancelGame\<close> by Alice succeeds and credits her stake again
  (her balance is then twice the stake she deposited), and \<open>joinGame\<close> by Bob on the
  completed game succeeds and writes \<open>player2\<close>: \<open>cancelGame\<close> has no check of
  \<open>isCompleted\<close>, which \<open>handleExpiredGame\<close> has.
\<close>

theorem cancelGame_repeats_refund:
  "run toy_keccak [plain_tx 1700000000 alice bet CreateGame,
                   plain_tx 1700007200 alice 0 (CancelGame 1)] init_contract
     = Inr st_cancelled_late \<and>
   isCompleted (games st_cancelled_late 1) \<and> player1 (games st_cancelled_late 1) = alice \<and>
   player2 (games st_cancelled_late 1) = 0 \<and> playerBalances st_cancelled_late alice = bet \<and>
   \<not> isl (cancelGame (at_time 1700007201) (from_account alice 0) 1 st_cancelled_late) \<and>
   playerBalances
     (storage_after (cancelGame (at_time 1700007201) (from_account alice 0) 1 st_cancelled_late)
        st_cancelled_late) alice = 2 * bet \<and>
   \<not> isl (joinGame (at_time 1700007201) (from_account bob bet) 1 st_cancelled_late) \<and>
   player2 (games (storage_after (joinGame (at_time 1700007201) (from_account bob bet) 1
                                   st_cancelled_late) st_cancelled_late) 1) = bob"
proof -
  have start: "run toy_keccak [plain_tx 1700000000 alice bet CreateGame,
                   plain_tx 1700007200 alice 0 (CancelGame 1)] init_contract
     = Inr st_cancelled_late"
    by (simp add: st_cancelled_late_def eval_defs)
  have rest: "isCompleted (games st_cancelled_late 1) \<and>
     player1 (games st_cancelled_late 1) = alice \<and>
     player2 (games st_cancelled_late 1) = 0 \<and> playerBalances st_cancelled_late alice = bet \<and>
     \<not> isl (cancelGame (at_time 1700007201) (from_account alice 0) 1 st_cancelled_late) \<and>
     playerBalances
       (storage_after (cancelGame (at_time 1700007201) (from_account alice 0) 1 st_cancelled_late)
          st_cancelled_late) alice = 2 * bet \<and>
     \<not> isl (joinGame (at_time 1700007201) (from_account bob bet) 1 st_cancelled_late) \<and>
     player2 (games (storage_after (joinGame (at_time 1700007201) (from_account bob bet) 1
                                     st_cancelled_late) st_cancelled_late) 1) = bob"
    by (simp add: st_cancelled_late_game st_cancelled_late_balances st_cancelled_late_entered
          cancelGame_def joinGame_def nonReentrant_def credit_def checked_add_def set_game_def
          storage_after_def at_time_def ONE_HOUR_def COMMIT_DURATION_def Let_def alice_def
          bob_def bet_def)
  show ?thesis using start rest by blast
qed

text \<open>
  Claim C9 fails on the code in its waiting condition. Alice creates a game and cancels
  it in the same block (timestamp 1700000000 for both): the cancellation succeeds and
  refunds her. The time check compares with \<open>commitDeadline + 1 hours\<close>, and
  \<open>commitDeadline\<close> is zero as long as no second player has joined
  (\<open>cancelGame_wait_in_reachable\<close>), so the creator's call passes the check at every
  block time later than 3600 (\<open>cancelGame_needs_no_wait\<close>). The other conditions of the
  claim hold (\<open>cancelGame_guards\<close>).
\<close>

theorem cancelGame_in_creation_block:
  "txs_cancelled = [plain_tx 1700000000 alice bet CreateGame,
                    plain_tx 1700000000 alice 0 (CancelGame 1)] \<and>
   run toy_keccak txs_cancelled init_contract = Inr st_cancelled \<and>
   isCompleted (games st_cancelled 1) \<and> result (games st_cancelled 1) = Expired \<and>
   playerBalances st_cancelled alice = bet"
  by (simp add: st_cancelled_def eval_defs)

end
